theory Spec2Isabelle
  imports Main "HOL-Library.Word"
begin

unbundle bit_operations_syntax

section \<open>Constants of the missing header\<close>

text \<open>
  \<^verbatim>\<open>ouichefs.h\<close> is not part of the sources at hand, so the sizes it fixes are
  parameters of the model: the capacity of a directory (\<^verbatim>\<open>OUICHEFS_MAX_SUBFILES\<close>), the
  length of a stored file name (\<^verbatim>\<open>OUICHEFS_FILENAME_LEN\<close>), the number of slots
  of a file index block and the size of a block in bytes (\<^verbatim>\<open>OUICHEFS_BLOCK_SIZE\<close>).
\<close>

record params =
  MAX_SUBFILES :: nat
  FILENAME_LEN :: nat
  INDEX_SLOTS :: nat
  BLOCK_SIZE :: nat

section \<open>Directory entries\<close>

text \<open>
  \<^verbatim>\<open>struct ouichefs_file { uint32_t inode; char filename[OUICHEFS_FILENAME_LEN]; }\<close>.
  The name array is kept as the C string it holds (the bytes before the first NUL).
\<close>

record ouichefs_file =
  inode :: nat
  filename :: string

definition zero_file :: ouichefs_file where
  "zero_file = \<lparr>inode = 0, filename = []\<rparr>"

text \<open>What can go wrong below the level of return codes: an access outside an array,
  a dereference of a null or error pointer, a block read with the wrong layout.\<close>

datatype fault = OutOfBounds int | NullDeref | ErrPtrDeref | BadCast

subsection \<open>\<^verbatim>\<open>memmove\<close> and \<^verbatim>\<open>memset\<close> on the entry array\<close>

text \<open>\<^verbatim>\<open>memmove(files + dst, files + src, n * sizeof(struct ouichefs_file))\<close>: a negative
  \<open>n\<close> becomes a huge \<^verbatim>\<open>size_t\<close>; a range that leaves the array is a fault.\<close>

definition memmove_files :: "ouichefs_file list \<Rightarrow> int \<Rightarrow> int \<Rightarrow> int \<Rightarrow> fault + ouichefs_file list" where
  "memmove_files files dst src n =
     (if n = 0 then Inr files
      else if n < 0 then Inl (OutOfBounds (dst + n))
      else if dst < 0 then Inl (OutOfBounds dst)
      else if src < 0 then Inl (OutOfBounds src)
      else if int (length files) < dst + n then Inl (OutOfBounds (dst + n - 1))
      else if int (length files) < src + n then Inl (OutOfBounds (src + n - 1))
      else Inr (take (nat dst) files @ take (nat n) (drop (nat src) files)
                @ drop (nat (dst + n)) files))"

text \<open>\<^verbatim>\<open>memset(&files[idx], 0, sizeof(struct ouichefs_file))\<close>.\<close>

definition memset_file :: "ouichefs_file list \<Rightarrow> int \<Rightarrow> fault + ouichefs_file list" where
  "memset_file files idx =
     (if idx < 0 \<or> int (length files) \<le> idx then Inl (OutOfBounds idx)
      else Inr (files[nat idx := zero_file]))"

subsection \<open>Removal of an entry (\<^verbatim>\<open>ouichefs_remove\<close>, lines 51-67)\<close>

text \<open>The search loop of lines 52-58, on the part of the array from index \<open>i\<close> on:
  it returns \<open>(f_id, nr_subs)\<close>. The empty list is \<open>i = OUICHEFS_MAX_SUBFILES\<close>.\<close>

fun remove_scan :: "nat \<Rightarrow> ouichefs_file list \<Rightarrow> nat \<Rightarrow> int \<Rightarrow> int \<times> nat" where
  "remove_scan ino [] i f_id = (f_id, i)"
| "remove_scan ino (f # fs) i f_id =
     (if inode f = ino then remove_scan ino fs (Suc i) (int i)
      else if inode f = 0 then (f_id, i)
      else remove_scan ino fs (Suc i) f_id)"

text \<open>Lines 60-67: shift the entries after \<open>f_id\<close> left by one, zero the last used slot.\<close>

definition compact_files :: "params \<Rightarrow> ouichefs_file list \<Rightarrow> int \<Rightarrow> nat \<Rightarrow> fault + ouichefs_file list" where
  "compact_files c files f_id nr_subs =
     (case (if f_id \<noteq> int (MAX_SUBFILES c) - 1
            then memmove_files files f_id (f_id + 1) (int nr_subs - f_id - 1)
            else Inr files) of
        Inl e \<Rightarrow> Inl e
      | Inr files' \<Rightarrow> memset_file files' (int nr_subs - 1))"

definition remove_entry :: "params \<Rightarrow> ouichefs_file list \<Rightarrow> nat \<Rightarrow> fault + ouichefs_file list" where
  "remove_entry c files ino =
     (case remove_scan ino files 0 (- 1) of (f_id, nr_subs) \<Rightarrow> compact_files c files f_id nr_subs)"

text \<open>The invariant of a directory block: no used entry after the first free one.\<close>

definition left_packed :: "ouichefs_file list \<Rightarrow> bool" where
  "left_packed files = (\<forall>i < length files. \<forall>j < length files. inode (files ! i) = 0 \<longrightarrow> i \<le> j \<longrightarrow> inode (files ! j) = 0)"

subsection \<open>The search loop of a cross-directory rename (\<^verbatim>\<open>ouichefs_rename\<close>, lines 672-678)\<close>

text \<open>\<^verbatim>\<open>for (i = 0; OUICHEFS_MAX_SUBFILES; i++)\<close>: the condition is the constant itself, so
  only the \<^verbatim>\<open>break\<close> at a free entry leaves the loop; reading \<^verbatim>\<open>files[i]\<close> with
  \<open>i\<close> at or past the capacity is outside the block.\<close>

function rename_scan :: "params \<Rightarrow> ouichefs_file list \<Rightarrow> nat \<Rightarrow> nat \<Rightarrow> int \<Rightarrow> fault + (int \<times> nat)" where
  "rename_scan c files ino i f_id =
     (if MAX_SUBFILES c = 0 then Inr (f_id, i)
      else if length files \<le> i then Inl (OutOfBounds (int i))
      else if inode (files ! i) = ino then rename_scan c files ino (Suc i) (int i)
      else if inode (files ! i) = 0 then Inr (f_id, i)
      else rename_scan c files ino (Suc i) f_id)"
  by pat_completeness auto
termination
  by (relation "measure (\<lambda>(c, files, ino, i, f_id). length files - i)") auto


section \<open>The state of a mounted volume\<close>

text \<open>The fields of \<^verbatim>\<open>struct inode\<close> and \<^verbatim>\<open>struct ouichefs_inode_info\<close> that the
  code reads or writes. Times are the \<^verbatim>\<open>tv_sec\<close> of the timestamps (\<^verbatim>\<open>time64_t\<close>),
  \<open>i_size\<close> is a \<^verbatim>\<open>loff_t\<close>, \<open>i_blocks\<close> a \<^verbatim>\<open>blkcnt_t\<close>, \<open>i_mode\<close> a \<^verbatim>\<open>umode_t\<close>.\<close>

record ouichefs_inode =
  i_mode :: "16 word"
  i_uid :: nat
  i_gid :: nat
  i_size :: "64 word"
  i_ctime :: "64 word"
  i_atime :: "64 word"
  i_mtime :: "64 word"
  i_blocks :: "64 word"
  i_nlink :: "32 word"
  index_block :: nat

definition S_ISDIR :: "16 word \<Rightarrow> bool" where
  "S_ISDIR m = (m AND 0xF000 = 0x4000)"

definition S_ISREG :: "16 word \<Rightarrow> bool" where
  "S_ISREG m = (m AND 0xF000 = 0x8000)"

definition S_IFDIR :: "16 word" where
  "S_IFDIR = 0x4000"

text \<open>A block of the device, by the layout it is used with: the entry array of a
  directory, the block numbers of a file index, file data, or a block filled with zero
  bytes by \<^verbatim>\<open>memset\<close> (which reads as an empty directory and as an empty index).\<close>

datatype block = Zeroed | Dir "ouichefs_file list" | Index "nat list" | Data string

text \<open>\<^verbatim>\<open>(struct ouichefs_dir_block *)bh->b_data\<close>\<close>

definition dir_block :: "params \<Rightarrow> block \<Rightarrow> fault + ouichefs_file list" where
  "dir_block c b =
     (case b of
        Zeroed \<Rightarrow> Inr (replicate (MAX_SUBFILES c) zero_file)
      | Dir files \<Rightarrow> if length files = MAX_SUBFILES c then Inr files else Inl BadCast
      | _ \<Rightarrow> Inl BadCast)"

text \<open>\<^verbatim>\<open>(struct ouichefs_file_index_block *)bh->b_data\<close>\<close>

definition file_index_block :: "params \<Rightarrow> block \<Rightarrow> fault + nat list" where
  "file_index_block c b =
     (case b of
        Zeroed \<Rightarrow> Inr (replicate (INDEX_SLOTS c) 0)
      | Index bs \<Rightarrow> if length bs = INDEX_SLOTS c then Inr bs else Inl BadCast
      | _ \<Rightarrow> Inl BadCast)"

text \<open>A dentry of the host's cache: its name and the inode it is bound to.\<close>

record dentry =
  d_name :: string
  d_inode :: "nat option"

text \<open>
  The volume: the blocks as \<^verbatim>\<open>sb_bread\<close> returns them (\<open>None\<close>: the read fails), the
  inodes by number (\<open>None\<close>: the inode cannot be read), the counters and bitmaps of
  \<^verbatim>\<open>struct ouichefs_sb_info\<close> (a set bit is a free resource), the host's reference
  counts (\<^verbatim>\<open>i_count\<close>) and dentry aliases, and the global strategy pointer.
\<close>

record fs =
  blocks :: "nat \<Rightarrow> block option"
  inodes :: "nat \<Rightarrow> ouichefs_inode option"
  nr_inodes :: nat
  nr_blocks :: nat
  nr_free_inodes :: nat
  nr_free_blocks :: nat
  ifree_bitmap :: "nat \<Rightarrow> bool"
  bfree_bitmap :: "nat \<Rightarrow> bool"
  i_count :: "nat \<Rightarrow> int"
  d_alias :: "nat \<Rightarrow> dentry option"
  ouichefs_fblocks_strategy :: "(ouichefs_inode \<Rightarrow> ouichefs_inode \<Rightarrow> int) option"

text \<open>Return codes: \<open>OK\<close> is 0, \<open>MinusOne\<close> the literal \<^verbatim>\<open>-1\<close> of \<^verbatim>\<open>ouichefs_fblocks\<close>,
  the others the negated errno of the same name.\<close>

datatype retcode = OK | MinusOne | EIO | EINVAL | ENOMEM | ENOSPC | ENAMETOOLONG | EMLINK
  | EEXIST | ENOTEMPTY

definition bindf :: "fault + 'a \<Rightarrow> ('a \<Rightarrow> fault + 'b) \<Rightarrow> fault + 'b" where
  "bindf m f = (case m of Inl e \<Rightarrow> Inl e | Inr x \<Rightarrow> f x)"

subsection \<open>The bitmap allocator\<close>

text \<open>Modelled from the spec: \<^verbatim>\<open>bitmap.h\<close> (\<^verbatim>\<open>get_free_inode\<close>, \<^verbatim>\<open>get_free_block\<close>,
  \<^verbatim>\<open>put_inode\<close>, \<^verbatim>\<open>put_block\<close>) is missing. Allocation scans the bitmap for the first
  free bit, marks it used and decrements the free count; the callers in \<^verbatim>\<open>inode.c\<close>
  read a result of 0 as "nothing free".\<close>

definition get_first_free_bit :: "(nat \<Rightarrow> bool) \<Rightarrow> nat \<Rightarrow> nat option" where
  "get_first_free_bit freemap n = List.find freemap [0..<n]"

definition get_free_inode :: "fs \<Rightarrow> nat \<times> fs" where
  "get_free_inode s =
     (case get_first_free_bit (ifree_bitmap s) (nr_inodes s) of
        None \<Rightarrow> (0, s)
      | Some ino \<Rightarrow> (ino, s\<lparr>ifree_bitmap := (ifree_bitmap s)(ino := False),
                             nr_free_inodes := nr_free_inodes s - 1\<rparr>))"

definition get_free_block :: "fs \<Rightarrow> nat \<times> fs" where
  "get_free_block s =
     (case get_first_free_bit (bfree_bitmap s) (nr_blocks s) of
        None \<Rightarrow> (0, s)
      | Some bno \<Rightarrow> (bno, s\<lparr>bfree_bitmap := (bfree_bitmap s)(bno := False),
                             nr_free_blocks := nr_free_blocks s - 1\<rparr>))"

text \<open>Modelled from the spec: freeing sets the bit back to free and increments the
  free count.\<close>

definition put_inode :: "nat \<Rightarrow> fs \<Rightarrow> fs" where
  "put_inode ino s = s\<lparr>ifree_bitmap := (ifree_bitmap s)(ino := True),
                        nr_free_inodes := nr_free_inodes s + 1\<rparr>"

definition put_block :: "nat \<Rightarrow> fs \<Rightarrow> fs" where
  "put_block bno s = s\<lparr>bfree_bitmap := (bfree_bitmap s)(bno := True),
                        nr_free_blocks := nr_free_blocks s + 1\<rparr>"

subsection \<open>\<^verbatim>\<open>ouichefs_iget\<close> and the host's \<^verbatim>\<open>iput\<close>\<close>

text \<open>\<^verbatim>\<open>ouichefs_iget\<close> fails with \<^verbatim>\<open>-EINVAL\<close> when the number is out of range and with
  \<^verbatim>\<open>-EIO\<close> when the inode cannot be read; otherwise the caller holds one more reference.\<close>

definition ouichefs_iget :: "fs \<Rightarrow> nat \<Rightarrow> retcode + fs" where
  "ouichefs_iget s ino =
     (if nr_inodes s \<le> ino then Inl EINVAL
      else case inodes s ino of
             None \<Rightarrow> Inl EIO
           | Some _ \<Rightarrow> Inr (s\<lparr>i_count := (i_count s)(ino := i_count s ino + 1)\<rparr>))"

definition iput :: "nat \<Rightarrow> fs \<Rightarrow> fs" where
  "iput ino s = s\<lparr>i_count := (i_count s)(ino := i_count s ino - 1)\<rparr>"


definition upd_inode :: "nat \<Rightarrow> (ouichefs_inode \<Rightarrow> ouichefs_inode) \<Rightarrow> fs \<Rightarrow> fs" where
  "upd_inode ino f s = s\<lparr>inodes := (inodes s)(ino := map_option f (inodes s ino))\<rparr>"

section \<open>The eviction policy\<close>

subsection \<open>Comparison strategies\<close>

text \<open>Each strategy returns an \<^verbatim>\<open>int\<close>: the 64-bit difference is cut to its low 32
  bits and read as a signed number.\<close>

definition ouichefs_fblocks_strategy_mtime :: "ouichefs_inode \<Rightarrow> ouichefs_inode \<Rightarrow> int" where
  "ouichefs_fblocks_strategy_mtime a b = sint (ucast (i_mtime a - i_mtime b) :: 32 word)"

text \<open>\<^verbatim>\<open>ouichefs_strategy_changer.c\<close>\<close>

definition ouichefs_strategy_size :: "ouichefs_inode \<Rightarrow> ouichefs_inode \<Rightarrow> int" where
  "ouichefs_strategy_size a b = sint (ucast (i_size b - i_size a) :: 32 word)"

text \<open>\<^verbatim>\<open>strategy_changer.c\<close>\<close>

definition strategy_by_size :: "ouichefs_inode \<Rightarrow> ouichefs_inode \<Rightarrow> int" where
  "strategy_by_size a b = sint (ucast (i_size a - i_size b) :: 32 word)"

text \<open>Loading a strategy module saves the current pointer and installs its own;
  unloading restores the saved one.\<close>

definition ouichefs_strategy_changer_init :: "fs \<Rightarrow> (ouichefs_inode \<Rightarrow> ouichefs_inode \<Rightarrow> int) option \<times> fs" where
  "ouichefs_strategy_changer_init s =
     (ouichefs_fblocks_strategy s, s\<lparr>ouichefs_fblocks_strategy := Some ouichefs_strategy_size\<rparr>)"

definition ouichefs_strategy_changer_exit :: "(ouichefs_inode \<Rightarrow> ouichefs_inode \<Rightarrow> int) option \<Rightarrow> fs \<Rightarrow> fs" where
  "ouichefs_strategy_changer_exit default_strategy s = s\<lparr>ouichefs_fblocks_strategy := default_strategy\<rparr>"

definition uname_init :: "fs \<Rightarrow> (ouichefs_inode \<Rightarrow> ouichefs_inode \<Rightarrow> int) option \<times> fs" where
  "uname_init s =
     (ouichefs_fblocks_strategy s, s\<lparr>ouichefs_fblocks_strategy := Some strategy_by_size\<rparr>)"

definition uname_exit :: "(ouichefs_inode \<Rightarrow> ouichefs_inode \<Rightarrow> int) option \<Rightarrow> fs \<Rightarrow> fs" where
  "uname_exit saved_strategy s = s\<lparr>ouichefs_fblocks_strategy := saved_strategy\<rparr>"

subsection \<open>The directory walk (\<^verbatim>\<open>ouichefs_iterate\<close>)\<close>

text \<open>
  The recursion of \<^verbatim>\<open>ouichefs_iterate\<close> follows the directory blocks on the device and
  need not end (a directory may list itself), so the walk takes fuel: one unit for each
  level of directories, and \<open>None\<close> when it runs out. Inode pointers are inode numbers.
  The walk writes no block, so the entries of a directory are read once.
  The reference that \<^verbatim>\<open>ouichefs_iget\<close> takes is given back for a regular file only.
  Dereferencing the error pointer of a failed \<^verbatim>\<open>ouichefs_iget\<close> is a fault.
\<close>

fun ouichefs_iterate ::
    "nat \<Rightarrow> params \<Rightarrow> nat \<Rightarrow> (nat \<Rightarrow> nat \<Rightarrow> fs \<Rightarrow> 'd \<Rightarrow> fault + 'd) option \<Rightarrow> fs \<Rightarrow> 'd
      \<Rightarrow> (fault + fs \<times> 'd) option"
  and iterate_entries ::
    "nat \<Rightarrow> params \<Rightarrow> nat \<Rightarrow> (nat \<Rightarrow> nat \<Rightarrow> fs \<Rightarrow> 'd \<Rightarrow> fault + 'd) option \<Rightarrow> ouichefs_file list
      \<Rightarrow> fs \<Rightarrow> 'd \<Rightarrow> (fault + fs \<times> 'd) option"
where
  "ouichefs_iterate 0 c dir action s data = None"
| "ouichefs_iterate (Suc n) c dir action s data =
     (case inodes s dir of
        None \<Rightarrow> Some (Inl NullDeref)
      | Some d \<Rightarrow>
          (case blocks s (index_block d) of
             None \<Rightarrow> Some (Inr (s, data))
           | Some b \<Rightarrow>
               (case dir_block c b of
                  Inl e \<Rightarrow> Some (Inl e)
                | Inr files \<Rightarrow> iterate_entries n c dir action files s data)))"
| "iterate_entries n c dir action [] s data = Some (Inr (s, data))"
| "iterate_entries n c dir action (f # fs) s data =
     (if inode f = 0 then Some (Inr (s, data))
      else
        case ouichefs_iget s (inode f) of
          Inl err \<Rightarrow> Some (Inl ErrPtrDeref)
        | Inr s1 \<Rightarrow>
            (case inodes s1 (inode f) of
               None \<Rightarrow> Some (Inl NullDeref)
             | Some i \<Rightarrow>
                 if S_ISDIR (i_mode i) then
                   (case ouichefs_iterate n c (inode f) action s1 data of
                      None \<Rightarrow> None
                    | Some (Inl e) \<Rightarrow> Some (Inl e)
                    | Some (Inr (s2, data2)) \<Rightarrow> iterate_entries n c dir action fs s2 data2)
                 else if S_ISREG (i_mode i) then
                   (case action of
                      None \<Rightarrow> iterate_entries n c dir action fs (iput (inode f) s1) data
                    | Some a \<Rightarrow>
                        (case a dir (inode f) (iput (inode f) s1) data of
                           Inl e \<Rightarrow> Some (Inl e)
                         | Inr data2 \<Rightarrow> iterate_entries n c dir action fs (iput (inode f) s1) data2))
                 else iterate_entries n c dir action fs s1 data))"

subsection \<open>The victim and the action on each regular file\<close>

text \<open>\<^verbatim>\<open>struct ouichefs_inode_kinship\<close>: the candidate and its directory, both
  \<^verbatim>\<open>NULL\<close> at first.\<close>

record ouichefs_inode_kinship =
  kin_parent :: "nat option"
  kin_inode :: "nat option"

definition ouichefs_fblocks_action :: "nat \<Rightarrow> nat \<Rightarrow> fs \<Rightarrow> ouichefs_inode_kinship \<Rightarrow> fault + ouichefs_inode_kinship" where
  "ouichefs_fblocks_action dir ino s victim =
     (if i_count s ino > 1 then Inr victim
      else
        bindf (case kin_inode victim of
                 None \<Rightarrow> Inr 1
               | Some v \<Rightarrow>
                   (case ouichefs_fblocks_strategy s of
                      None \<Rightarrow> Inr 0
                    | Some strategy \<Rightarrow>
                        (case (inodes s v, inodes s ino) of
                           (Some a, Some b) \<Rightarrow> Inr (strategy a b)
                         | _ \<Rightarrow> Inl NullDeref)))
          (\<lambda>ret. if ret > (0::int)
                  then Inr (victim\<lparr>kin_parent := Some dir, kin_inode := Some ino\<rparr>)
                  else Inr victim))"


section \<open>Removal (\<^verbatim>\<open>ouichefs_remove\<close>, \<^verbatim>\<open>ouichefs_unlink\<close>)\<close>

text \<open>What the host supplies to a call: \<^verbatim>\<open>current_time\<close> and the credentials that
  \<^verbatim>\<open>inode_init_owner\<close> reads.\<close>

record host =
  current_time :: "64 word"
  fsuid :: nat
  fsgid :: nat

text \<open>Lines 91-104: free and scrub the data blocks listed in the index block \<open>bno\<close>.
  \<open>n\<close> is \<^verbatim>\<open>inode->i_blocks - 1\<close> (unsigned, so it wraps when \<open>i_blocks\<close> is 0). The index
  is read from the buffer at each step: a block scrubbed in the loop may be the index
  itself. The buffer is held, so its block cannot have become unreadable.\<close>

function remove_data_blocks :: "params \<Rightarrow> nat \<Rightarrow> nat \<Rightarrow> nat \<Rightarrow> fs \<Rightarrow> fault + fs" where
  "remove_data_blocks c bno n i s =
     (if \<not> i < n then Inr s
      else
        case blocks s bno of
          None \<Rightarrow> Inl NullDeref
        | Some fb \<Rightarrow>
            (case file_index_block c fb of
               Inl e \<Rightarrow> Inl e
             | Inr bs \<Rightarrow>
                 if length bs \<le> i then Inl (OutOfBounds (int i))
                 else if bs ! i = 0 then remove_data_blocks c bno n (Suc i) s
                 else
                   (case blocks s (bs ! i) of
                      None \<Rightarrow> remove_data_blocks c bno n (Suc i) (put_block (bs ! i) s)
                    | Some _ \<Rightarrow>
                        remove_data_blocks c bno n (Suc i)
                          ((put_block (bs ! i) s)\<lparr>blocks := (blocks s)(bs ! i \<mapsto> Zeroed)\<rparr>))))"
  by pat_completeness auto
termination
  by (relation "measure (\<lambda>(c, bno, n, i, s). n - i)") auto

text \<open>Lines 83-110: the content of the removed inode, skipped when its index block
  cannot be read.\<close>

definition remove_content :: "params \<Rightarrow> ouichefs_inode \<Rightarrow> fs \<Rightarrow> fault + fs" where
  "remove_content c inode_rec s =
     (case blocks s (index_block inode_rec) of
        None \<Rightarrow> Inr s
      | Some _ \<Rightarrow>
          bindf (if S_ISDIR (i_mode inode_rec) then Inr s
                 else remove_data_blocks c (index_block inode_rec) (unat (i_blocks inode_rec - 1)) 0 s)
            (\<lambda>s'. Inr (s'\<lparr>blocks := (blocks s')(index_block inode_rec \<mapsto> Zeroed)\<rparr>)))"

text \<open>Lines 112-126.\<close>

definition clean_inode :: "nat \<Rightarrow> nat \<Rightarrow> fs \<Rightarrow> fs" where
  "clean_inode ino bno s =
     put_inode ino (put_block bno
       (upd_inode ino (\<lambda>i. i\<lparr>i_blocks := 0, index_block := 0, i_size := 0, i_uid := 0, i_gid := 0,
                               i_mode := 0, i_ctime := 0, i_mtime := 0, i_atime := 0\<rparr>) s))"

text \<open>Lines 71-75, also used by create and rename: the timestamps of a directory and
  its link count.\<close>

definition touch_dir :: "host \<Rightarrow> nat \<Rightarrow> (32 word \<Rightarrow> 32 word) \<Rightarrow> fs \<Rightarrow> fs" where
  "touch_dir h dir links s =
     upd_inode dir (\<lambda>d. d\<lparr>i_mtime := current_time h, i_atime := current_time h,
                           i_ctime := current_time h, i_nlink := links (i_nlink d)\<rparr>) s"

definition ouichefs_remove :: "params \<Rightarrow> host \<Rightarrow> nat \<Rightarrow> nat \<Rightarrow> fs \<Rightarrow> fault + retcode \<times> fs" where
  "ouichefs_remove c h dir ino s =
     (case (inodes s dir, inodes s ino) of
        (Some d, Some inode_rec) \<Rightarrow>
          (case blocks s (index_block d) of
             None \<Rightarrow> Inr (EIO, s)
           | Some db \<Rightarrow>
               bindf (dir_block c db) (\<lambda>files.
               bindf (remove_entry c files ino) (\<lambda>files'.
               bindf (remove_content c inode_rec
                        (touch_dir h dir (\<lambda>l. if S_ISDIR (i_mode inode_rec) then l - 1 else l)
                           (s\<lparr>blocks := (blocks s)(index_block d \<mapsto> Dir files')\<rparr>))) (\<lambda>s'.
               Inr (OK, clean_inode ino (index_block inode_rec) s')))))
      | _ \<Rightarrow> Inl NullDeref)"

definition ouichefs_unlink :: "params \<Rightarrow> host \<Rightarrow> nat \<Rightarrow> dentry \<Rightarrow> fs \<Rightarrow> fault + retcode \<times> fs" where
  "ouichefs_unlink c h dir dentry s =
     (case d_inode dentry of
        None \<Rightarrow> Inl NullDeref
      | Some ino \<Rightarrow> ouichefs_remove c h dir ino s)"

text \<open>The host's \<^verbatim>\<open>vfs_unlink\<close>, as far as this file system sees it: it calls the
  \<^verbatim>\<open>unlink\<close> operation of the directory and, when that succeeds, detaches the dentry.\<close>

definition vfs_unlink :: "params \<Rightarrow> host \<Rightarrow> nat \<Rightarrow> dentry \<Rightarrow> fs \<Rightarrow> fault + retcode \<times> fs" where
  "vfs_unlink c h dir dentry s =
     bindf (ouichefs_unlink c h dir dentry s) (\<lambda>(ret, s').
       Inr (ret, if ret = OK
                 then (case d_inode dentry of
                         None \<Rightarrow> s'
                       | Some ino \<Rightarrow> s'\<lparr>d_alias := (d_alias s')(ino := None)\<rparr>)
                 else s'))"

subsection \<open>\<^verbatim>\<open>ouichefs_fblocks\<close>\<close>

text \<open>Lines 355-373, once a victim is chosen. \<open>dentry\<close> is what \<^verbatim>\<open>d_find_any_alias\<close>
  returned. The \<^verbatim>\<open>pr_info\<close> of line 359 is given \<^verbatim>\<open>dentry->d_iname\<close>, an array member: that
  forms an address and reads nothing through the pointer, so a null \<open>dentry\<close> reaches the
  test of line 360; \<^verbatim>\<open>dput\<close> of a null pointer does nothing. Both removal routes
  dereference \<^verbatim>\<open>victim->parent\<close>. Their results are dropped: \<open>ret\<close> stays 0.\<close>

definition fblocks_delete :: "params \<Rightarrow> host \<Rightarrow> nat option \<Rightarrow> nat \<Rightarrow> dentry option \<Rightarrow> fs \<Rightarrow> fault + retcode \<times> fs" where
  "fblocks_delete c h parent vino dentry s =
     bindf (case parent of None \<Rightarrow> Inl NullDeref | Some p \<Rightarrow> Inr p) (\<lambda>p.
     bindf (case dentry of
              None \<Rightarrow> ouichefs_remove c h p vino s
            | Some d \<Rightarrow> vfs_unlink c h p d s) (\<lambda>(r, s').
     Inr (OK, s')))"

text \<open>The host's \<^verbatim>\<open>d_find_any_alias\<close>: a dentry from the alias list of the inode, which is
  bound to that inode, or \<^verbatim>\<open>NULL\<close>.\<close>

definition d_find_any_alias :: "fs \<Rightarrow> nat \<Rightarrow> dentry option" where
  "d_find_any_alias s ino = map_option (\<lambda>d. d\<lparr>d_inode := Some ino\<rparr>) (d_alias s ino)"

definition ouichefs_fblocks :: "nat \<Rightarrow> params \<Rightarrow> host \<Rightarrow> nat \<Rightarrow> fs \<Rightarrow> (fault + retcode \<times> fs) option" where
  "ouichefs_fblocks fuel c h dir s =
     (case ouichefs_iterate fuel c dir (Some ouichefs_fblocks_action) s
             \<lparr>kin_parent = None, kin_inode = None\<rparr> of
        None \<Rightarrow> None
      | Some (Inl e) \<Rightarrow> Some (Inl e)
      | Some (Inr (s1, victim)) \<Rightarrow>
          (case kin_inode victim of
             None \<Rightarrow> Some (Inr (MinusOne, s1))
           | Some vino \<Rightarrow> Some (fblocks_delete c h (kin_parent victim) vino (d_find_any_alias s1 vino) s1)))"


section \<open>Names\<close>

text \<open>A name is a C string: it ends before the first NUL. \<^verbatim>\<open>strncpy\<close> into the name
  array of an entry keeps at most \<^verbatim>\<open>OUICHEFS_FILENAME_LEN\<close> characters of it, and
  \<^verbatim>\<open>strncmp\<close> compares at most that many.\<close>

definition cstr :: "string \<Rightarrow> string" where
  "cstr name = takeWhile (\<lambda>ch. ch \<noteq> CHR 0x00) name"

definition strlen :: "string \<Rightarrow> nat" where
  "strlen name = length (cstr name)"

definition strncpy :: "string \<Rightarrow> nat \<Rightarrow> string" where
  "strncpy src n = take n (cstr src)"

definition strncmp0 :: "string \<Rightarrow> string \<Rightarrow> nat \<Rightarrow> bool" where
  "strncmp0 a b n = (take n (cstr a) = take n (cstr b))"

section \<open>Lookup (\<^verbatim>\<open>ouichefs_lookup\<close>)\<close>

text \<open>Lines 405-414: the inode number of the first used entry that bears the name.\<close>

fun lookup_scan :: "params \<Rightarrow> string \<Rightarrow> ouichefs_file list \<Rightarrow> nat option" where
  "lookup_scan c name [] = None"
| "lookup_scan c name (f # fs) =
     (if inode f = 0 then None
      else if strncmp0 (filename f) name (FILENAME_LEN c) then Some (inode f)
      else lookup_scan c name fs)"

text \<open>The result holds the dentry as \<^verbatim>\<open>d_add\<close> leaves it: bound to the inode found, or
  to none.\<close>

definition ouichefs_lookup :: "params \<Rightarrow> host \<Rightarrow> nat \<Rightarrow> dentry \<Rightarrow> fs \<Rightarrow> fault + retcode \<times> dentry \<times> fs" where
  "ouichefs_lookup c h dir dentry s =
     (if FILENAME_LEN c < strlen (d_name dentry) then Inr (ENAMETOOLONG, dentry, s)
      else
        case inodes s dir of
          None \<Rightarrow> Inl NullDeref
        | Some d \<Rightarrow>
            (case blocks s (index_block d) of
               None \<Rightarrow> Inr (EIO, dentry, s)
             | Some b \<Rightarrow>
                 bindf (dir_block c b) (\<lambda>files.
                   case lookup_scan c (d_name dentry) files of
                     None \<Rightarrow>
                       Inr (OK, dentry\<lparr>d_inode := None\<rparr>,
                            upd_inode dir (\<lambda>d. d\<lparr>i_atime := current_time h\<rparr>) s)
                   | Some ino \<Rightarrow>
                       (case ouichefs_iget s ino of
                          Inl err \<Rightarrow> Inl ErrPtrDeref
                        | Inr s1 \<Rightarrow>
                            Inr (OK, dentry\<lparr>d_inode := Some ino\<rparr>,
                                 (upd_inode dir (\<lambda>d. d\<lparr>i_atime := current_time h\<rparr>) s1)
                                   \<lparr>d_alias := (d_alias s1)(ino \<mapsto> dentry\<lparr>d_inode := Some ino\<rparr>)\<rparr>)))))"

section \<open>Creation (\<^verbatim>\<open>ouichefs_new_inode\<close>, \<^verbatim>\<open>ouichefs_create\<close>, \<^verbatim>\<open>ouichefs_mkdir\<close>)\<close>

text \<open>The host's \<^verbatim>\<open>inode_init_owner\<close>: the owner is the caller; a set-group-id directory
  hands its group (and, to a directory, the bit) down.\<close>

definition inode_init_owner :: "host \<Rightarrow> ouichefs_inode \<Rightarrow> 16 word \<Rightarrow> ouichefs_inode \<Rightarrow> ouichefs_inode" where
  "inode_init_owner h d mode i =
     (if i_mode d AND 0x400 \<noteq> 0
      then i\<lparr>i_uid := fsuid h, i_gid := i_gid d,
             i_mode := (if S_ISDIR mode then mode OR 0x400 else mode)\<rparr>
      else i\<lparr>i_uid := fsuid h, i_gid := fsgid h, i_mode := mode\<rparr>)"

text \<open>The result is the error of the \<^verbatim>\<open>ERR_PTR\<close> or the number of the new inode.\<close>

definition ouichefs_new_inode :: "params \<Rightarrow> host \<Rightarrow> nat \<Rightarrow> 16 word \<Rightarrow> fs \<Rightarrow> fault + (retcode + nat) \<times> fs" where
  "ouichefs_new_inode c h dir mode s =
     (if \<not> S_ISDIR mode \<and> \<not> S_ISREG mode then Inr (Inl EINVAL, s)
      else if nr_free_inodes s = 0 \<or> nr_free_blocks s = 0 then Inr (Inl ENOSPC, s)
      else
        case get_free_inode s of (ino, s1) \<Rightarrow>
          if ino = 0 then Inr (Inl ENOSPC, s1)
          else
            case ouichefs_iget s1 ino of
              Inl err \<Rightarrow> Inr (Inl err, put_inode ino s1)
            | Inr s2 \<Rightarrow>
                (case get_free_block s2 of (bno, s3) \<Rightarrow>
                   if bno = 0 then Inr (Inl ENOSPC, put_inode ino (iput ino s3))
                   else
                     case inodes s3 dir of
                       None \<Rightarrow> Inl NullDeref
                     | Some d \<Rightarrow>
                         Inr (Inr ino,
                              upd_inode ino (\<lambda>i. (inode_init_owner h d mode (i\<lparr>index_block := bno\<rparr>))
                                \<lparr>i_blocks := 1,
                                 i_size := (if S_ISDIR mode then of_nat (BLOCK_SIZE c) else 0),
                                 i_nlink := (if S_ISDIR mode then 2 else 1),
                                 i_ctime := current_time h, i_atime := current_time h,
                                 i_mtime := current_time h\<rparr>) s3)))"

text \<open>Lines 561-563: the first free slot, or the capacity when there is none.\<close>

fun first_free :: "ouichefs_file list \<Rightarrow> nat \<Rightarrow> nat" where
  "first_free [] i = i"
| "first_free (f # fs) i = (if inode f = 0 then i else first_free fs (Suc i))"

text \<open>Lines 539-580, on the state after the eviction (if any). \<open>dirbno\<close> is the block of
  the buffer \<^verbatim>\<open>bh\<close> read at line 525; the entries are read from that buffer as it is now.\<close>

definition scrub_block :: "nat \<Rightarrow> fs \<Rightarrow> fs" where
  "scrub_block bno s = s\<lparr>blocks := (blocks s)(bno \<mapsto> Zeroed)\<rparr>"

definition write_dir :: "nat \<Rightarrow> ouichefs_file list \<Rightarrow> fs \<Rightarrow> fs" where
  "write_dir bno files s = s\<lparr>blocks := (blocks s)(bno \<mapsto> Dir files)\<rparr>"

definition d_instantiate :: "dentry \<Rightarrow> nat \<Rightarrow> fs \<Rightarrow> fs" where
  "d_instantiate dentry ino s = s\<lparr>d_alias := (d_alias s)(ino \<mapsto> dentry\<lparr>d_inode := Some ino\<rparr>)\<rparr>"

definition create_tail :: "params \<Rightarrow> host \<Rightarrow> nat \<Rightarrow> nat \<Rightarrow> dentry \<Rightarrow> 16 word \<Rightarrow> fs \<Rightarrow> fault + retcode \<times> dentry \<times> fs" where
  "create_tail c h dir dirbno dentry mode s =
     bindf (ouichefs_new_inode c h dir mode s) (\<lambda>(r, s1).
       case r of
         Inl err \<Rightarrow> Inr (err, dentry, s1)
       | Inr ino \<Rightarrow>
           (case inodes s1 ino of
              None \<Rightarrow> Inl NullDeref
            | Some i \<Rightarrow>
                (case blocks s1 (index_block i) of
                   None \<Rightarrow> Inr (EIO, dentry, iput ino (put_inode ino (put_block (index_block i) s1)))
                 | Some _ \<Rightarrow>
                     (case blocks (scrub_block (index_block i) s1) dirbno of
                        None \<Rightarrow> Inl NullDeref
                      | Some db \<Rightarrow>
                          bindf (dir_block c db) (\<lambda>files.
                            if MAX_SUBFILES c \<le> first_free files 0
                            then Inl (OutOfBounds (int (first_free files 0)))
                            else
                              Inr (OK, dentry\<lparr>d_inode := Some ino\<rparr>,
                                   d_instantiate dentry ino
                                     (touch_dir h dir (\<lambda>l. if S_ISDIR mode then l + 1 else l)
                                        (write_dir dirbno
                                           (files[first_free files 0 :=
                                              \<lparr>inode = ino,
                                               filename = strncpy (d_name dentry) (FILENAME_LEN c)\<rparr>])
                                           (scrub_block (index_block i) s1)))))))))"

definition ouichefs_create :: "nat \<Rightarrow> params \<Rightarrow> host \<Rightarrow> nat \<Rightarrow> dentry \<Rightarrow> 16 word \<Rightarrow> fs \<Rightarrow> (fault + retcode \<times> dentry \<times> fs) option" where
  "ouichefs_create fuel c h dir dentry mode s =
     (if FILENAME_LEN c < strlen (d_name dentry) then Some (Inr (ENAMETOOLONG, dentry, s))
      else
        case inodes s dir of
          None \<Rightarrow> Some (Inl NullDeref)
        | Some d \<Rightarrow>
            (case blocks s (index_block d) of
               None \<Rightarrow> Some (Inr (EIO, dentry, s))
             | Some db \<Rightarrow>
                 (case dir_block c db of
                    Inl e \<Rightarrow> Some (Inl e)
                  | Inr files \<Rightarrow>
                      if MAX_SUBFILES c = 0 then Some (Inl (OutOfBounds (- 1)))
                      else if inode (files ! (MAX_SUBFILES c - 1)) \<noteq> 0 then
                        (case ouichefs_fblocks fuel c h dir s of
                           None \<Rightarrow> None
                         | Some (Inl e) \<Rightarrow> Some (Inl e)
                         | Some (Inr (r, s1)) \<Rightarrow>
                             if r \<noteq> OK then Some (Inr (EMLINK, dentry, s1))
                             else Some (create_tail c h dir (index_block d) dentry mode s1))
                      else Some (create_tail c h dir (index_block d) dentry mode s))))"

definition ouichefs_mkdir :: "nat \<Rightarrow> params \<Rightarrow> host \<Rightarrow> nat \<Rightarrow> dentry \<Rightarrow> 16 word \<Rightarrow> fs \<Rightarrow> (fault + retcode \<times> dentry \<times> fs) option" where
  "ouichefs_mkdir fuel c h dir dentry mode s = ouichefs_create fuel c h dir dentry (mode OR S_IFDIR) s"


section \<open>Rename (\<^verbatim>\<open>ouichefs_rename\<close>)\<close>

definition RENAME_EXCHANGE :: "32 word" where
  "RENAME_EXCHANGE = 2"

definition RENAME_WHITEOUT :: "32 word" where
  "RENAME_WHITEOUT = 4"

text \<open>Lines 618-634, over the entries from index \<open>i\<close> on: \<open>None\<close> when the new name is
  taken (\<^verbatim>\<open>-EEXIST\<close>), else \<open>(f_pos, new_pos)\<close>.\<close>

fun rename_check :: "params \<Rightarrow> bool \<Rightarrow> string \<Rightarrow> string \<Rightarrow> ouichefs_file list \<Rightarrow> nat \<Rightarrow> int \<Rightarrow> int \<Rightarrow> (int \<times> int) option" where
  "rename_check c same old_name new_name [] i f_pos new_pos = Some (f_pos, new_pos)"
| "rename_check c same old_name new_name (f # fs) i f_pos new_pos =
     (if strncmp0 (filename f) new_name (FILENAME_LEN c) then None
      else rename_check c same old_name new_name fs (Suc i)
             (if same \<and> strncmp0 (filename f) old_name (FILENAME_LEN c) then int i else f_pos)
             (if new_pos < 0 \<and> inode f = 0 then int i else new_pos))"

text \<open>Lines 636-643: \<^verbatim>\<open>strncpy(dir_block->files[f_pos].filename, ...)\<close>.\<close>

definition rename_in_place :: "params \<Rightarrow> ouichefs_file list \<Rightarrow> int \<Rightarrow> string \<Rightarrow> fault + ouichefs_file list" where
  "rename_in_place c files f_pos new_name =
     (if f_pos < 0 \<or> int (length files) \<le> f_pos then Inl (OutOfBounds f_pos)
      else Inr (files[nat f_pos := (files ! nat f_pos)\<lparr>filename := strncpy new_name (FILENAME_LEN c)\<rparr>]))"

text \<open>Lines 666-698: take the moved inode out of the old directory.\<close>

definition rename_remove_old :: "params \<Rightarrow> host \<Rightarrow> nat \<Rightarrow> nat \<Rightarrow> ouichefs_inode \<Rightarrow> fs \<Rightarrow> fault + retcode \<times> fs" where
  "rename_remove_old c h old_dir src src_rec s =
     (case inodes s old_dir of
        None \<Rightarrow> Inl NullDeref
      | Some od \<Rightarrow>
          (case blocks s (index_block od) of
             None \<Rightarrow> Inr (EIO, s)
           | Some b \<Rightarrow>
               bindf (dir_block c b) (\<lambda>files.
               bindf (rename_scan c files src 0 (- 1)) (\<lambda>(f_id, nr_subs).
               bindf (compact_files c files f_id nr_subs) (\<lambda>files'.
               Inr (OK, touch_dir h old_dir (\<lambda>l. if S_ISDIR (i_mode src_rec) then l - 1 else l)
                          (write_dir (index_block od) files' s)))))))"

definition ouichefs_rename :: "params \<Rightarrow> host \<Rightarrow> nat \<Rightarrow> dentry \<Rightarrow> nat \<Rightarrow> dentry \<Rightarrow> 32 word \<Rightarrow> fs \<Rightarrow> fault + retcode \<times> fs" where
  "ouichefs_rename c h old_dir old_dentry new_dir new_dentry flags s =
     (if flags AND (RENAME_EXCHANGE OR RENAME_WHITEOUT) \<noteq> 0 then Inr (EINVAL, s)
      else if FILENAME_LEN c < strlen (d_name new_dentry) then Inr (ENAMETOOLONG, s)
      else
        case inodes s new_dir of
          None \<Rightarrow> Inl NullDeref
        | Some nd \<Rightarrow>
            (case blocks s (index_block nd) of
               None \<Rightarrow> Inr (EIO, s)
             | Some b \<Rightarrow>
                 bindf (dir_block c b) (\<lambda>files.
                   case rename_check c (new_dir = old_dir) (d_name old_dentry) (d_name new_dentry)
                          files 0 (- 1) (- 1) of
                     None \<Rightarrow> Inr (EEXIST, s)
                   | Some (f_pos, new_pos) \<Rightarrow>
                       if old_dir = new_dir then
                         bindf (rename_in_place c files f_pos (d_name new_dentry)) (\<lambda>files'.
                           Inr (OK, write_dir (index_block nd) files' s))
                       else if new_pos < 0 then Inr (EMLINK, s)
                       else
                         (case d_inode old_dentry of
                            None \<Rightarrow> Inl NullDeref
                          | Some src \<Rightarrow>
                              (case inodes s src of
                                 None \<Rightarrow> Inl NullDeref
                               | Some src_rec \<Rightarrow>
                                   rename_remove_old c h old_dir src src_rec
                                     (touch_dir h new_dir
                                        (\<lambda>l. if S_ISDIR (i_mode src_rec) then l + 1 else l)
                                        (write_dir (index_block nd)
                                           (files[nat new_pos :=
                                              \<lparr>inode = src,
                                               filename = strncpy (d_name new_dentry) (FILENAME_LEN c)\<rparr>])
                                           s)))))))"

section \<open>Removal of a directory (\<^verbatim>\<open>ouichefs_rmdir\<close>)\<close>

definition ouichefs_rmdir :: "params \<Rightarrow> host \<Rightarrow> nat \<Rightarrow> dentry \<Rightarrow> fs \<Rightarrow> fault + retcode \<times> fs" where
  "ouichefs_rmdir c h dir dentry s =
     (case d_inode dentry of
        None \<Rightarrow> Inl NullDeref
      | Some ino \<Rightarrow>
          (case inodes s ino of
             None \<Rightarrow> Inl NullDeref
           | Some inode_rec \<Rightarrow>
               if 2 < i_nlink inode_rec then Inr (ENOTEMPTY, s)
               else
                 case blocks s (index_block inode_rec) of
                   None \<Rightarrow> Inr (EIO, s)
                 | Some b \<Rightarrow>
                     bindf (dir_block c b) (\<lambda>files.
                       if MAX_SUBFILES c = 0 then Inl (OutOfBounds 0)
                       else if inode (files ! 0) \<noteq> 0 then Inr (ENOTEMPTY, s)
                       else ouichefs_unlink c h dir dentry s)))"


section \<open>Relations between volumes\<close>

text \<open>Two volumes that differ in the reference counts of the host at most.\<close>

definition only_counts :: "fs \<Rightarrow> fs \<Rightarrow> bool" where
  "only_counts s s' = (s' = s\<lparr>i_count := i_count s'\<rparr>)"

text \<open>What an eviction leaves of a directory: its inode keeps its index block and stays
  allocated, and its block holds entries it held before, or free ones.\<close>

definition dir_kept :: "params \<Rightarrow> nat \<Rightarrow> nat \<Rightarrow> ouichefs_file list \<Rightarrow> fs \<Rightarrow> bool" where
  "dir_kept c dir dirbno files s =
     ((\<exists>d. inodes s dir = Some d \<and> index_block d = dirbno) \<and> \<not> ifree_bitmap s dir
      \<and> (\<exists>b fs'. blocks s dirbno = Some b \<and> dir_block c b = Inr fs'
            \<and> set fs' \<subseteq> insert zero_file (set files)))"

section \<open>Example volumes\<close>

text \<open>Small volumes on which the statements below are evaluated: directories hold two
  entries, names four characters.\<close>

definition ex_params :: params where
  "ex_params = \<lparr>MAX_SUBFILES = 2, FILENAME_LEN = 4, INDEX_SLOTS = 2, BLOCK_SIZE = 16\<rparr>"

definition ex_host :: host where
  "ex_host = \<lparr>current_time = 1000, fsuid = 0, fsgid = 0\<rparr>"

definition ex_dir_inode :: "nat \<Rightarrow> ouichefs_inode" where
  "ex_dir_inode bno = \<lparr>i_mode = 0x41ED, i_uid = 0, i_gid = 0, i_size = 16, i_ctime = 0, i_atime = 0,
     i_mtime = 0, i_blocks = 1, i_nlink = 2, index_block = bno\<rparr>"

definition ex_file_inode :: "nat \<Rightarrow> 64 word \<Rightarrow> 64 word \<Rightarrow> ouichefs_inode" where
  "ex_file_inode bno mtime sz = \<lparr>i_mode = 0x81A4, i_uid = 0, i_gid = 0, i_size = sz, i_ctime = 0,
     i_atime = 0, i_mtime = mtime, i_blocks = 1, i_nlink = 1, index_block = bno\<rparr>"

definition ex_fs :: "(nat \<Rightarrow> block option) \<Rightarrow> (nat \<Rightarrow> ouichefs_inode option) \<Rightarrow> fs" where
  "ex_fs bs is = \<lparr>blocks = bs, inodes = is, nr_inodes = 8, nr_blocks = 32, nr_free_inodes = 3,
     nr_free_blocks = 3, ifree_bitmap = (\<lambda>i. 5 \<le> i), bfree_bitmap = (\<lambda>b. 29 \<le> b),
     i_count = (\<lambda>i. 0), d_alias = (\<lambda>i. None),
     ouichefs_fblocks_strategy = Some ouichefs_fblocks_strategy_mtime\<rparr>"

definition rename_full_fs :: fs where
  "rename_full_fs = ex_fs
     [10 \<mapsto> Dir [\<lparr>inode = 3, filename = ''a''\<rparr>, \<lparr>inode = 4, filename = ''b''\<rparr>], 11 \<mapsto> Zeroed,
      12 \<mapsto> Zeroed, 13 \<mapsto> Zeroed]
     [1 \<mapsto> ex_dir_inode 10, 2 \<mapsto> ex_dir_inode 11, 3 \<mapsto> ex_file_inode 12 0 0, 4 \<mapsto> ex_file_inode 13 0 0]"


definition rmdir_eio_fs :: fs where
  "rmdir_eio_fs = ex_fs
     [10 \<mapsto> Dir [\<lparr>inode = 2, filename = ''d''\<rparr>, zero_file]]
     [1 \<mapsto> (ex_dir_inode 10)\<lparr>i_nlink := 3\<rparr>, 2 \<mapsto> ex_dir_inode 11]"

definition rmdir_ok_fs :: fs where
  "rmdir_ok_fs = ex_fs
     [10 \<mapsto> Dir [\<lparr>inode = 2, filename = ''d''\<rparr>, zero_file], 11 \<mapsto> Dir [zero_file, zero_file]]
     [1 \<mapsto> (ex_dir_inode 10)\<lparr>i_nlink := 3\<rparr>, 2 \<mapsto> ex_dir_inode 11]"

definition remove_eio_fs :: fs where
  "remove_eio_fs = ex_fs
     [10 \<mapsto> Dir [\<lparr>inode = 3, filename = ''a''\<rparr>, \<lparr>inode = 4, filename = ''b''\<rparr>],
      13 \<mapsto> Index [20, 0], 20 \<mapsto> Data ''x'']
     [1 \<mapsto> ex_dir_inode 10, 3 \<mapsto> (ex_file_inode 12 7 5)\<lparr>i_blocks := 2\<rparr>,
      4 \<mapsto> (ex_file_inode 13 8 5)\<lparr>i_blocks := 2\<rparr>]"

definition two_files_fs :: "64 word \<Rightarrow> 64 word \<Rightarrow> 64 word \<Rightarrow> 64 word \<Rightarrow> fs" where
  "two_files_fs mtime3 size3 mtime4 size4 = ex_fs
     [10 \<mapsto> Dir [\<lparr>inode = 3, filename = ''a''\<rparr>, \<lparr>inode = 4, filename = ''b''\<rparr>],
      12 \<mapsto> Zeroed, 13 \<mapsto> Zeroed]
     [1 \<mapsto> ex_dir_inode 10, 3 \<mapsto> ex_file_inode 12 mtime3 size3, 4 \<mapsto> ex_file_inode 13 mtime4 size4]"

definition busy_fs :: fs where
  "busy_fs = (two_files_fs 7 5 8 5)\<lparr>i_count := (\<lambda>i. 2)\<rparr>"

definition free_inode :: ouichefs_inode where
  "free_inode = \<lparr>i_mode = 0, i_uid = 0, i_gid = 0, i_size = 0, i_ctime = 0, i_atime = 0,
     i_mtime = 0, i_blocks = 0, i_nlink = 0, index_block = 0\<rparr>"

definition create_fs :: fs where
  "create_fs = ex_fs
     [10 \<mapsto> Dir [\<lparr>inode = 3, filename = ''a''\<rparr>, zero_file], 12 \<mapsto> Zeroed, 29 \<mapsto> Data ''junk'']
     [1 \<mapsto> ex_dir_inode 10, 3 \<mapsto> ex_file_inode 12 7 5, 5 \<mapsto> free_inode]"

definition created_fs :: "string \<Rightarrow> fs" where
  "created_fs name = create_fs
     \<lparr>blocks := (blocks create_fs)
        (29 \<mapsto> Zeroed, 10 \<mapsto> Dir [\<lparr>inode = 3, filename = ''a''\<rparr>, \<lparr>inode = 5, filename = name\<rparr>]),
      inodes := (inodes create_fs)
        (5 \<mapsto> \<lparr>i_mode = 0x81A4, i_uid = 0, i_gid = 0, i_size = 0, i_ctime = 1000, i_atime = 1000,
                i_mtime = 1000, i_blocks = 1, i_nlink = 1, index_block = 29\<rparr>,
         1 \<mapsto> (ex_dir_inode 10)\<lparr>i_ctime := 1000, i_atime := 1000, i_mtime := 1000\<rparr>),
      nr_free_inodes := 2, nr_free_blocks := 2,
      ifree_bitmap := (ifree_bitmap create_fs)(5 := False),
      bfree_bitmap := (bfree_bitmap create_fs)(29 := False),
      i_count := (i_count create_fs)(5 := 1),
      d_alias := (d_alias create_fs)(5 \<mapsto> \<lparr>d_name = name, d_inode = Some 5\<rparr>)\<rparr>"

definition evict_sub_fs :: fs where
  "evict_sub_fs = (ex_fs
     [10 \<mapsto> Dir [\<lparr>inode = 2, filename = ''d''\<rparr>, \<lparr>inode = 3, filename = ''a''\<rparr>],
      11 \<mapsto> Dir [\<lparr>inode = 4, filename = ''b''\<rparr>, zero_file],
      12 \<mapsto> Zeroed, 13 \<mapsto> Zeroed, 29 \<mapsto> Data ''junk'']
     [1 \<mapsto> (ex_dir_inode 10)\<lparr>i_nlink := 3\<rparr>, 2 \<mapsto> ex_dir_inode 11, 3 \<mapsto> ex_file_inode 12 7 5,
      4 \<mapsto> ex_file_inode 13 8 5, 5 \<mapsto> free_inode])\<lparr>i_count := (\<lambda>i. if i = 3 then 2 else 0)\<rparr>"

section \<open>Properties\<close>

lemma replicate_numeral: "replicate (numeral k) x = x # replicate (pred_numeral k) x"
  by (simp add: numeral_eq_Suc)

lemmas ex_defs = ex_fs_def ex_params_def ex_host_def ex_dir_inode_def ex_file_inode_def
lemmas str_defs = strlen_def cstr_def strncmp0_def strncpy_def
lemmas blk_defs = dir_block_def file_index_block_def bindf_def zero_file_def replicate_numeral
  touch_dir_def write_dir_def scrub_block_def upd_inode_def S_ISDIR_def S_ISREG_def

subsection \<open>Compaction of a directory on removal\<close>

lemma memset_file_nat:
  "i < length files \<Longrightarrow> memset_file files (int i) = Inr (files[i := zero_file])"
  by (simp add: memset_file_def)

lemma memmove_files_nat:
  "0 < n \<Longrightarrow> s + n \<le> length files \<Longrightarrow> d + n \<le> length files \<Longrightarrow>
   memmove_files files (int d) (int s) (int n)
     = Inr (take d files @ take n (drop s files) @ drop (d + n) files)"
  by (simp add: memmove_files_def nat_add_distrib)

lemma compact_files_eq:
  assumes len: "length files = MAX_SUBFILES c" and k: "k \<le> length files" and p: "p < k"
  shows "compact_files c files (int p) k
         = Inr (take p files @ drop (Suc p) (take k files) @ zero_file # drop k files)"
proof -
  have k1: "int k - 1 = int (k - 1)" using p by simp
  show ?thesis
  proof (cases "Suc p = k")
    case True
    then have "drop (Suc p) (take k files) = []" by simp
    moreover have "files[p := zero_file] = take p files @ zero_file # drop (Suc p) files"
      using p k by (simp add: upd_conv_take_nth_drop)
    moreover have "compact_files c files (int p) k = memset_file files (int p)"
      using True by (auto simp: compact_files_def memmove_files_def)
    ultimately show ?thesis using True p k by (simp add: memset_file_nat)
  next
    case False
    with p have lt: "Suc p < k" by simp
    define n where "n = k - Suc p"
    have n: "0 < n" "Suc p + n = k" "p + n = k - 1" using lt by (simp_all add: n_def)
    have ne: "int p \<noteq> int (MAX_SUBFILES c) - 1" using lt k len by simp
    have cnt: "int k - int p - 1 = int n" using lt by (simp add: n_def)
    have mm: "memmove_files files (int p) (int p + 1) (int n)
          = Inr (take p files @ take n (drop (Suc p) files) @ drop (p + n) files)"
    proof -
      have "int p + 1 = int (Suc p)" by simp
      moreover have "Suc p + n \<le> length files" "p + n \<le> length files" using n k by simp_all
      ultimately show ?thesis
        using memmove_files_nat [of n "Suc p" files p] n(1) by metis
    qed
    let ?L = "take p files @ take n (drop (Suc p) files) @ drop (p + n) files"
    have lenL: "length ?L = length files" using n k by simp
    have u1: "?L[k - 1 := zero_file]
          = take p files @ take n (drop (Suc p) files) @ (drop (p + n) files)[0 := zero_file]"
    proof -
      have a: "length (take p files) = p" "length (take n (drop (Suc p) files)) = n"
        using n k by simp_all
      have "k - 1 = p + (n + 0)" using n by simp
      then show ?thesis
        using a by (metis add_diff_cancel_left' list_update_append not_add_less1 add.right_neutral)
    qed
    have u2: "(drop (p + n) files)[0 := zero_file] = zero_file # drop k files"
      using n k lt by (simp add: upd_conv_take_nth_drop Cons_nth_drop_Suc drop_Suc [symmetric])
    have u3: "take n (drop (Suc p) files) = drop (Suc p) (take k files)"
      using n by (simp add: drop_take n_def)
    have upd: "?L[k - 1 := zero_file]
        = take p files @ drop (Suc p) (take k files) @ zero_file # drop k files"
      by (subst u1, subst u2, subst u3) (rule refl)
    have "compact_files c files (int p) k = memset_file ?L (int (k - 1))"
      using ne mm cnt k1 by (simp add: compact_files_def)
    also have "\<dots> = Inr (?L[k - 1 := zero_file])"
      using lenL k p by (intro memset_file_nat) simp
    finally show ?thesis using upd by simp
  qed
qed


lemma remove_scan_skip:
  "\<forall>f \<in> set xs. inode f \<noteq> 0 \<and> inode f \<noteq> ino \<Longrightarrow>
   remove_scan ino (xs @ ys) i f_id = remove_scan ino ys (i + length xs) f_id"
  by (induction xs arbitrary: i f_id) auto

lemma remove_scan_stop:
  "ys = [] \<or> (inode (hd ys) = 0 \<and> ino \<noteq> 0) \<Longrightarrow> remove_scan ino ys j f_id = (f_id, j)"
  by (cases ys) auto

lemma remove_scan_found:
  assumes "\<forall>f \<in> set xs. inode f \<noteq> 0 \<and> inode f \<noteq> ino"
    and "\<forall>f \<in> set zs. inode f \<noteq> 0 \<and> inode f \<noteq> ino"
    and "inode t = ino" and "ino \<noteq> 0"
    and "rest = [] \<or> inode (hd rest) = 0"
  shows "remove_scan ino (xs @ t # zs @ rest) 0 f_id = (int (length xs), Suc (length xs + length zs))"
  using assms by (simp add: remove_scan_skip remove_scan_stop)

lemma split_at_entry:
  assumes "k \<le> length files" "p < k"
  shows "files = take p files @ files ! p # drop (Suc p) (take k files) @ drop k files"
proof -
  have "take k files = take p (take k files) @ take k files ! p # drop (Suc p) (take k files)"
    using assms by (intro id_take_nth_drop) simp
  then have "take k files = take p files @ files ! p # drop (Suc p) (take k files)"
    using assms by (simp add: min_def)
  then show ?thesis
    by (metis append_take_drop_id append.assoc append_Cons)
qed

lemma remove_scan_at:
  assumes k: "k \<le> length files" and p: "p < k"
    and used: "\<forall>j<k. inode (files ! j) \<noteq> 0"
    and free: "\<forall>j. k \<le> j \<and> j < length files \<longrightarrow> inode (files ! j) = 0"
    and at: "inode (files ! p) = ino"
    and uniq: "\<forall>j<k. j \<noteq> p \<longrightarrow> inode (files ! j) \<noteq> ino"
  shows "remove_scan ino files 0 (- 1) = (int p, k)"
proof -
  let ?xs = "take p files" and ?zs = "drop (Suc p) (take k files)" and ?rest = "drop k files"
  have xs: "\<forall>f \<in> set ?xs. inode f \<noteq> 0 \<and> inode f \<noteq> ino"
  proof
    fix f assume "f \<in> set ?xs"
    then obtain j where j: "j < length ?xs" "f = ?xs ! j" by (auto simp: in_set_conv_nth)
    then have "f = files ! j" "j < k" "j \<noteq> p" using k p by simp_all
    then show "inode f \<noteq> 0 \<and> inode f \<noteq> ino" using used uniq by simp
  qed
  have zs: "\<forall>f \<in> set ?zs. inode f \<noteq> 0 \<and> inode f \<noteq> ino"
  proof
    fix f assume "f \<in> set ?zs"
    then obtain j where j: "j < length ?zs" "f = ?zs ! j" by (auto simp: in_set_conv_nth)
    then have "f = files ! (Suc p + j)" "Suc p + j < k" using k p by simp_all
    then show "inode f \<noteq> 0 \<and> inode f \<noteq> ino" using used uniq by simp
  qed
  have rest: "?rest = [] \<or> inode (hd ?rest) = 0"
    using free k by (cases "k < length files") (simp_all add: hd_drop_conv_nth)
  have nz: "ino \<noteq> 0" using used p at by auto
  have "remove_scan ino (?xs @ files ! p # ?zs @ ?rest) 0 (- 1)
        = (int (length ?xs), Suc (length ?xs + length ?zs))"
    by (rule remove_scan_found [OF xs zs at nz rest])
  moreover have "length ?xs = p" "Suc (length ?xs + length ?zs) = k" using k p by simp_all
  ultimately show ?thesis using split_at_entry [OF k p] by simp
qed

lemma left_packed_after:
  assumes k: "k \<le> length files" and p: "p < k"
    and used: "\<forall>j<k. inode (files ! j) \<noteq> 0"
    and free: "\<forall>j. k \<le> j \<and> j < length files \<longrightarrow> inode (files ! j) = 0"
  shows "left_packed (take p files @ drop (Suc p) (take k files) @ zero_file # drop k files)"
proof -
  let ?r = "take p files @ drop (Suc p) (take k files) @ zero_file # drop k files"
  have len: "length ?r = length files" using k p by simp
  have hi: "inode (?r ! j) = 0" if "k - 1 \<le> j" "j < length files" for j
  proof -
    have a: "length (take p files @ drop (Suc p) (take k files)) = k - 1" using k p by simp
    have "?r ! j = (zero_file # drop k files) ! (j - (k - 1))"
      using that a by (metis append.assoc nth_append not_less)
    then show ?thesis using that free k p
      by (cases "j - (k - 1)") (simp_all add: zero_file_def)
  qed
  show ?thesis unfolding left_packed_def len
  proof (intro allI impI)
    fix i j assume i: "i < length files" and j: "j < length files"
      and z: "inode (?r ! i) = 0" and le: "i \<le> j"
    have "k - 1 \<le> i"
    proof (rule ccontr)
      assume "\<not> k - 1 \<le> i"
      then have ik: "i < k - 1" by simp
      have "?r ! i = (if i < p then files ! i else files ! Suc i)"
        using ik k p by (auto simp: nth_append)
      then have "inode (?r ! i) \<noteq> 0" using used ik by auto
      with z show False by simp
    qed
    then show "inode (?r ! j) = 0" using hi le j by simp
  qed
qed

text \<open>
  C6. In a directory whose first \<open>k\<close> entries are used and whose other entries are free,
  removing the inode that sits at position \<open>p < k\<close> (and nowhere else) moves every entry
  after \<open>p\<close> one slot to the left, zeroes slot \<open>k - 1\<close> and leaves the other slots as they
  were: the \<open>k - 1\<close> entries that remain are the first ones, in their old order, and the
  block is left-packed again.
\<close>

theorem remove_entry_compacts:
  assumes "length files = MAX_SUBFILES c" and "k \<le> length files" and "p < k"
    and "\<forall>j<k. inode (files ! j) \<noteq> 0"
    and "\<forall>j. k \<le> j \<and> j < length files \<longrightarrow> inode (files ! j) = 0"
    and "inode (files ! p) = ino"
    and "\<forall>j<k. j \<noteq> p \<longrightarrow> inode (files ! j) \<noteq> ino"
  shows "remove_entry c files ino
           = Inr (take p files @ drop (Suc p) (take k files) @ zero_file # drop k files)
         \<and> left_packed (take p files @ drop (Suc p) (take k files) @ zero_file # drop k files)"
  using assms
  by (simp add: remove_entry_def remove_scan_at compact_files_eq left_packed_after)


theorem remove_entry_compacts_witness:
  "remove_entry ex_params
     [\<lparr>inode = 5, filename = ''a''\<rparr>, \<lparr>inode = 7, filename = ''b''\<rparr>] 5
     = Inr [\<lparr>inode = 7, filename = ''b''\<rparr>, zero_file]
   \<and> left_packed [\<lparr>inode = 7, filename = ''b''\<rparr>, zero_file]"
proof -
  let ?files = "[\<lparr>inode = 5, filename = ''a''\<rparr>, \<lparr>inode = 7, filename = ''b''\<rparr>]"
  have 1: "length ?files = MAX_SUBFILES ex_params" by (simp add: ex_params_def)
  have 2: "2 \<le> length ?files" and 3: "(0::nat) < 2" by simp_all
  have 4: "\<forall>j<2. inode (?files ! j) \<noteq> 0" by (simp add: numeral_2_eq_2 less_Suc_eq)
  have 5: "\<forall>j. 2 \<le> j \<and> j < length ?files \<longrightarrow> inode (?files ! j) = 0" by simp
  have 6: "inode (?files ! 0) = 5" by simp
  have 7: "\<forall>j<2. j \<noteq> 0 \<longrightarrow> inode (?files ! j) \<noteq> 5" by (simp add: numeral_2_eq_2 less_Suc_eq)
  show ?thesis using remove_entry_compacts [OF 1 2 3 4 5 6 7] by simp
qed

subsection \<open>The search loop of a cross-directory rename\<close>

text \<open>On a directory without a free entry the loop runs off the end of the array.\<close>

lemma rename_scan_full:
  assumes "0 < MAX_SUBFILES c" and "\<forall>f \<in> set files. inode f \<noteq> 0" and "i \<le> length files"
  shows "rename_scan c files ino i f_id = Inl (OutOfBounds (int (length files)))"
  using assms
proof (induction "length files - i" arbitrary: i f_id)
  case 0
  then have "i = length files" by simp
  with "0.prems"(1) show ?case by (subst rename_scan.simps) simp
next
  case (Suc k)
  then have lt: "i < length files" by simp
  with Suc.prems(2) have nz: "inode (files ! i) \<noteq> 0" by simp
  have k: "k = length files - Suc i" using Suc.hyps(2) by simp
  from lt have le: "Suc i \<le> length files" by simp
  have a: "rename_scan c files ino (Suc i) g = Inl (OutOfBounds (int (length files)))" for g
    by (rule Suc.hyps(1) [OF k Suc.prems(1,2) le])
  show ?case
    using Suc.prems(1) lt nz a by (subst rename_scan.simps) simp
qed

text \<open>
  C5. The loop that looks for the moved inode in the old directory has no bound on its
  index. Moving \<open>a\<close> out of a directory whose two slots are both used reads the entry
  array at index 2, one past its end.
\<close>

theorem rename_full_source_overruns:
  "ouichefs_rename ex_params ex_host 1 \<lparr>d_name = ''a'', d_inode = Some 3\<rparr>
     2 \<lparr>d_name = ''c'', d_inode = None\<rparr> 0 rename_full_fs = Inl (OutOfBounds 2)"
  by (simp add: ouichefs_rename_def rename_full_fs_def ex_defs str_defs blk_defs
      RENAME_EXCHANGE_def RENAME_WHITEOUT_def rename_remove_old_def)

subsection \<open>Removal of a directory\<close>

lemma ouichefs_remove_ret:
  "ouichefs_remove c h dir ino s = Inr (r, s') \<Longrightarrow> r = EIO \<or> r = OK"
  by (auto simp: ouichefs_remove_def bindf_def split: option.splits sum.splits prod.splits)

lemma ouichefs_unlink_ret:
  "ouichefs_unlink c h dir dentry s = Inr (r, s') \<Longrightarrow> r = EIO \<or> r = OK"
  by (auto simp: ouichefs_unlink_def dest: ouichefs_remove_ret split: option.splits)

text \<open>
  C8, amended. \<^verbatim>\<open>rmdir\<close> returns \<^verbatim>\<open>-ENOTEMPTY\<close>, leaving the volume as it was, exactly when
  the link count of the target exceeds 2, or its index block can be read and the first
  slot is used. With at most 2 links and an index block that cannot be read it returns
  \<^verbatim>\<open>-EIO\<close>. With at most 2 links and a readable index block whose first slot is free it
  is \<^verbatim>\<open>ouichefs_unlink\<close> on the same arguments: the same result and the same volume.
\<close>

theorem rmdir_cases:
  assumes "d_inode dentry = Some ino" and "inodes s ino = Some inode_rec"
  shows "((\<exists>s'. ouichefs_rmdir c h dir dentry s = Inr (ENOTEMPTY, s')) \<longleftrightarrow>
            2 < i_nlink inode_rec \<or>
            (\<exists>b files. blocks s (index_block inode_rec) = Some b \<and> dir_block c b = Inr files
               \<and> 0 < MAX_SUBFILES c \<and> inode (files ! 0) \<noteq> 0))
       \<and> (\<forall>s'. ouichefs_rmdir c h dir dentry s = Inr (ENOTEMPTY, s') \<longrightarrow> s' = s)
       \<and> (\<not> 2 < i_nlink inode_rec \<and> blocks s (index_block inode_rec) = None \<longrightarrow>
            ouichefs_rmdir c h dir dentry s = Inr (EIO, s))
       \<and> (\<forall>b files. \<not> 2 < i_nlink inode_rec \<and> blocks s (index_block inode_rec) = Some b
            \<and> dir_block c b = Inr files \<and> 0 < MAX_SUBFILES c \<and> inode (files ! 0) = 0 \<longrightarrow>
            ouichefs_rmdir c h dir dentry s = ouichefs_unlink c h dir dentry s)"
  using assms
  by (auto simp: ouichefs_rmdir_def bindf_def dest: ouichefs_unlink_ret split: option.splits sum.splits)

text \<open>
  C8 as stated fails where the index block of the target cannot be read: the target has
  2 links, the call returns \<^verbatim>\<open>-EIO\<close>, neither \<^verbatim>\<open>-ENOTEMPTY\<close> nor success.
\<close>

theorem rmdir_unreadable_index_counterexample:
  "\<not> 2 < i_nlink (ex_dir_inode 11) \<and> inodes rmdir_eio_fs 2 = Some (ex_dir_inode 11)
   \<and> blocks rmdir_eio_fs 11 = None
   \<and> ouichefs_rmdir ex_params ex_host 1 \<lparr>d_name = ''d'', d_inode = Some 2\<rparr> rmdir_eio_fs
       = Inr (EIO, rmdir_eio_fs)"
  by (simp add: ouichefs_rmdir_def rmdir_eio_fs_def ex_defs)

theorem rmdir_cases_witness:
  "ouichefs_rmdir ex_params ex_host 1 \<lparr>d_name = ''d'', d_inode = Some 2\<rparr> rmdir_ok_fs
     = ouichefs_unlink ex_params ex_host 1 \<lparr>d_name = ''d'', d_inode = Some 2\<rparr> rmdir_ok_fs
   \<and> (\<exists>s'. ouichefs_unlink ex_params ex_host 1 \<lparr>d_name = ''d'', d_inode = Some 2\<rparr> rmdir_ok_fs
         = Inr (OK, s'))"
proof -
  have a: "d_inode \<lparr>d_name = ''d'', d_inode = Some 2\<rparr> = Some 2" by simp
  have b: "inodes rmdir_ok_fs 2 = Some (ex_dir_inode 11)" by (simp add: rmdir_ok_fs_def ex_defs)
  note th = rmdir_cases [OF a b, of ex_params ex_host 1, THEN conjunct2, THEN conjunct2,
      THEN conjunct2, rule_format, of "Dir [zero_file, zero_file]" "[zero_file, zero_file]"]
  have "ouichefs_rmdir ex_params ex_host 1 \<lparr>d_name = ''d'', d_inode = Some 2\<rparr> rmdir_ok_fs
     = ouichefs_unlink ex_params ex_host 1 \<lparr>d_name = ''d'', d_inode = Some 2\<rparr> rmdir_ok_fs"
    by (rule th) (simp add: rmdir_ok_fs_def ex_defs dir_block_def zero_file_def)
  moreover have "\<exists>s'. ouichefs_unlink ex_params ex_host 1 \<lparr>d_name = ''d'', d_inode = Some 2\<rparr> rmdir_ok_fs
         = Inr (OK, s')"
    by (simp add: ouichefs_unlink_def ouichefs_remove_def rmdir_ok_fs_def ex_defs blk_defs
        remove_entry_def compact_files_def memmove_files_def memset_file_def remove_content_def)
  ultimately show ?thesis by simp
qed

subsection \<open>Removal of an inode whose index block cannot be read\<close>

text \<open>
  C9. When the index block of the removed inode cannot be read, \<^verbatim>\<open>ouichefs_remove\<close>
  returns 0; the only block written is the directory block, which holds the entries
  without the removed one; the only bit set in the block bitmap is that of the index
  block (the data blocks stay allocated); the inode is freed and its fields are zero.
\<close>

theorem remove_unreadable_index:
  assumes d: "inodes s dir = Some d" and i: "inodes s ino = Some inode_rec"
    and db: "blocks s (index_block d) = Some db" and files: "dir_block c db = Inr files"
    and entry: "remove_entry c files ino = Inr files'"
    and unreadable: "blocks s (index_block inode_rec) = None"
  shows "\<exists>s' i'. ouichefs_remove c h dir ino s = Inr (OK, s')
       \<and> blocks s' = (blocks s)(index_block d \<mapsto> Dir files')
       \<and> bfree_bitmap s' = (bfree_bitmap s)(index_block inode_rec := True)
       \<and> nr_free_blocks s' = nr_free_blocks s + 1
       \<and> ifree_bitmap s' = (ifree_bitmap s)(ino := True)
       \<and> nr_free_inodes s' = nr_free_inodes s + 1
       \<and> inodes s' ino = Some i'
       \<and> i_mode i' = 0 \<and> i_size i' = 0 \<and> i_blocks i' = 0 \<and> index_block i' = 0
       \<and> i_uid i' = 0 \<and> i_gid i' = 0 \<and> i_ctime i' = 0 \<and> i_mtime i' = 0 \<and> i_atime i' = 0"
proof -
  have ne: "index_block inode_rec \<noteq> index_block d" using db unreadable by auto
  show ?thesis using assms ne
    by (simp add: ouichefs_remove_def bindf_def remove_content_def clean_inode_def touch_dir_def
        upd_inode_def put_inode_def put_block_def)
qed

theorem remove_unreadable_index_witness:
  "\<exists>s' i'. ouichefs_remove ex_params ex_host 1 3 remove_eio_fs = Inr (OK, s')
     \<and> blocks s' = (blocks remove_eio_fs)(10 \<mapsto> Dir [\<lparr>inode = 4, filename = ''b''\<rparr>, zero_file])
     \<and> bfree_bitmap s' = (bfree_bitmap remove_eio_fs)(12 := True)
     \<and> nr_free_blocks s' = 4
     \<and> ifree_bitmap s' = (ifree_bitmap remove_eio_fs)(3 := True)
     \<and> nr_free_inodes s' = 4
     \<and> inodes s' 3 = Some i'
     \<and> i_mode i' = 0 \<and> i_size i' = 0 \<and> i_blocks i' = 0 \<and> index_block i' = 0
     \<and> i_uid i' = 0 \<and> i_gid i' = 0 \<and> i_ctime i' = 0 \<and> i_mtime i' = 0 \<and> i_atime i' = 0"
proof -
  have d: "inodes remove_eio_fs 1 = Some (ex_dir_inode 10)"
    and i: "inodes remove_eio_fs 3 = Some ((ex_file_inode 12 7 5)\<lparr>i_blocks := 2\<rparr>)"
    by (simp_all add: remove_eio_fs_def ex_defs)
  have db: "blocks remove_eio_fs (index_block (ex_dir_inode 10))
      = Some (Dir [\<lparr>inode = 3, filename = ''a''\<rparr>, \<lparr>inode = 4, filename = ''b''\<rparr>])"
    by (simp add: remove_eio_fs_def ex_defs)
  have files: "dir_block ex_params (Dir [\<lparr>inode = 3, filename = ''a''\<rparr>, \<lparr>inode = 4, filename = ''b''\<rparr>])
      = Inr [\<lparr>inode = 3, filename = ''a''\<rparr>, \<lparr>inode = 4, filename = ''b''\<rparr>]"
    by (simp add: dir_block_def ex_defs)
  have entry: "remove_entry ex_params [\<lparr>inode = 3, filename = ''a''\<rparr>, \<lparr>inode = 4, filename = ''b''\<rparr>] 3
      = Inr [\<lparr>inode = 4, filename = ''b''\<rparr>, zero_file]"
    by (simp add: remove_entry_def compact_files_def memmove_files_def memset_file_def ex_defs)
  have unreadable: "blocks remove_eio_fs (index_block ((ex_file_inode 12 7 5)\<lparr>i_blocks := 2\<rparr>)) = None"
    by (simp add: remove_eio_fs_def ex_defs)
  show ?thesis
    using remove_unreadable_index [OF d i db files entry unreadable, of ex_host]
    by (simp add: remove_eio_fs_def ex_defs)
qed

subsection \<open>Rename within one directory\<close>

lemma rename_check_f_pos:
  "rename_check c True old_name new_name fs i f_pos new_pos = Some (f_pos', new_pos') \<Longrightarrow>
   f_pos' = f_pos \<or>
   (int i \<le> f_pos' \<and> f_pos' < int (i + length fs)
    \<and> strncmp0 (filename (fs ! (nat f_pos' - i))) old_name (FILENAME_LEN c))"
proof (induction fs arbitrary: i f_pos new_pos)
  case Nil
  then show ?case by simp
next
  case (Cons f fs)
  let ?fp = "if strncmp0 (filename f) old_name (FILENAME_LEN c) then int i else f_pos"
  let ?np = "if new_pos < 0 \<and> inode f = 0 then int i else new_pos"
  have rec: "rename_check c True old_name new_name fs (Suc i) ?fp ?np = Some (f_pos', new_pos')"
    using Cons.prems by (cases "strncmp0 (filename f) new_name (FILENAME_LEN c)") simp_all
  from Cons.IH [OF rec] show ?case
  proof
    assume eq: "f_pos' = ?fp"
    show ?thesis
    proof (cases "strncmp0 (filename f) old_name (FILENAME_LEN c)")
      case True
      with eq show ?thesis by simp
    next
      case False
      with eq show ?thesis by simp
    qed
  next
    assume a: "int (Suc i) \<le> f_pos' \<and> f_pos' < int (Suc i + length fs)
      \<and> strncmp0 (filename (fs ! (nat f_pos' - Suc i))) old_name (FILENAME_LEN c)"
    then have "nat f_pos' - i = Suc (nat f_pos' - Suc i)" by linarith
    with a show ?thesis by simp
  qed
qed

text \<open>
  C10. A rename whose old and new directory are the same, when it returns 0, has
  rewritten the name of one entry that bore the old name, and nothing else: the inode
  number of that entry, the other entries, every other block, the inodes, the bitmaps
  and the counters are as before. When it returns an error the volume is unchanged.
\<close>

theorem rename_same_dir_frame:
  assumes ren: "ouichefs_rename c h dir old_dentry dir new_dentry flags s = Inr (r, s')"
    and d: "inodes s dir = Some d"
  shows "(r \<noteq> OK \<longrightarrow> s' = s)
       \<and> (r = OK \<longrightarrow>
            (\<exists>b files p. blocks s (index_block d) = Some b \<and> dir_block c b = Inr files
               \<and> p < length files
               \<and> strncmp0 (filename (files ! p)) (d_name old_dentry) (FILENAME_LEN c)
               \<and> s' = s\<lparr>blocks := (blocks s)(index_block d \<mapsto>
                     Dir (files[p := (files ! p)\<lparr>filename := strncpy (d_name new_dentry) (FILENAME_LEN c)\<rparr>]))\<rparr>))"
proof (cases "r = OK")
  case False
  with ren d show ?thesis
    by (auto simp: ouichefs_rename_def bindf_def rename_in_place_def write_dir_def
        split: if_splits option.splits sum.splits prod.splits)
next
  case True
  from ren d True obtain b files f_pos new_pos where
      b: "blocks s (index_block d) = Some b" and files: "dir_block c b = Inr files"
      and chk: "rename_check c True (d_name old_dentry) (d_name new_dentry) files 0 (- 1) (- 1) = Some (f_pos, new_pos)"
      and inplace: "bindf (rename_in_place c files f_pos (d_name new_dentry))
                      (\<lambda>files'. Inr (OK, write_dir (index_block d) files' s)) = Inr (r, s')"
    by (auto simp: ouichefs_rename_def bindf_def split: if_splits option.splits sum.splits prod.splits)
  from inplace have range: "0 \<le> f_pos" "f_pos < int (length files)"
    and s': "s' = write_dir (index_block d)
        (files[nat f_pos := (files ! nat f_pos)\<lparr>filename := strncpy (d_name new_dentry) (FILENAME_LEN c)\<rparr>]) s"
    by (auto simp: bindf_def rename_in_place_def split: if_splits)
  from rename_check_f_pos [OF chk] range
  have "strncmp0 (filename (files ! nat f_pos)) (d_name old_dentry) (FILENAME_LEN c)" by auto
  with b files range s' True show ?thesis
    by (auto simp: write_dir_def intro!: exI [of _ "nat f_pos"])
qed

theorem rename_same_dir_frame_witness:
  "ouichefs_rename ex_params ex_host 1 \<lparr>d_name = ''a'', d_inode = Some 3\<rparr>
      1 \<lparr>d_name = ''c'', d_inode = None\<rparr> 0 rename_full_fs
     = Inr (OK, write_dir 10 [\<lparr>inode = 3, filename = ''c''\<rparr>, \<lparr>inode = 4, filename = ''b''\<rparr>] rename_full_fs)
   \<and> (\<exists>b files p. blocks rename_full_fs 10 = Some b \<and> dir_block ex_params b = Inr files
         \<and> p < length files
         \<and> strncmp0 (filename (files ! p)) ''a'' (FILENAME_LEN ex_params)
         \<and> write_dir 10 [\<lparr>inode = 3, filename = ''c''\<rparr>, \<lparr>inode = 4, filename = ''b''\<rparr>] rename_full_fs
             = rename_full_fs\<lparr>blocks := (blocks rename_full_fs)(10 \<mapsto>
                 Dir (files[p := (files ! p)\<lparr>filename := strncpy ''c'' (FILENAME_LEN ex_params)\<rparr>]))\<rparr>)"
proof -
  have ren: "ouichefs_rename ex_params ex_host 1 \<lparr>d_name = ''a'', d_inode = Some 3\<rparr>
      1 \<lparr>d_name = ''c'', d_inode = None\<rparr> 0 rename_full_fs
     = Inr (OK, write_dir 10 [\<lparr>inode = 3, filename = ''c''\<rparr>, \<lparr>inode = 4, filename = ''b''\<rparr>] rename_full_fs)"
    by (simp add: ouichefs_rename_def rename_full_fs_def ex_defs str_defs blk_defs
        RENAME_EXCHANGE_def RENAME_WHITEOUT_def rename_in_place_def)
  have d: "inodes rename_full_fs 1 = Some (ex_dir_inode 10)"
    by (simp add: rename_full_fs_def ex_defs)
  have ib: "index_block (ex_dir_inode 10) = 10" by (simp add: ex_defs)
  show ?thesis
    using rename_same_dir_frame [OF ren d] ren unfolding ib by simp
qed

subsection \<open>The eviction pass\<close>

text \<open>With both values below \<open>2^31\<close> a strategy returns the exact difference, and its
  sign tells which inode the pass keeps: the default strategy replaces the victim by an
  older candidate, \<^verbatim>\<open>ouichefs_strategy_size\<close> by a larger one, \<^verbatim>\<open>strategy_by_size\<close> by a
  smaller one.\<close>

lemma strategy_exact:
  fixes a b :: "64 word"
  assumes a: "a < 2 ^ 31" and b: "b < 2 ^ 31"
  shows "sint (ucast (a - b) :: 32 word) = uint a - uint b"
proof -
  from a b have lt: "uint a < 2 ^ 31" "uint b < 2 ^ 31" by (simp_all add: word_less_def)
  have nn: "0 \<le> uint a" "0 \<le> uint b" by simp_all
  have lo: "- (2 ^ 31) \<le> uint a - uint b" and hi: "uint a - uint b < 2 ^ 31"
    using nn lt by linarith+
  have "sint (ucast (a - b) :: 32 word) = signed_take_bit 31 (uint (ucast (a - b) :: 32 word))"
    by (simp add: sint_uint)
  also have "uint (ucast (a - b) :: 32 word) = take_bit 32 (uint (a - b))"
    by (simp add: unsigned_ucast_eq)
  also have "signed_take_bit 31 (take_bit 32 (uint (a - b))) = signed_take_bit 31 (uint (a - b))"
    by (simp add: signed_take_bit_take_bit)
  also have "uint (a - b) = take_bit 64 (uint a - uint b)"
    by (simp add: uint_word_arith_bintrs)
  also have "signed_take_bit 31 (take_bit 64 (uint a - uint b)) = signed_take_bit 31 (uint a - uint b)"
    by (simp add: signed_take_bit_take_bit)
  also have "\<dots> = uint a - uint b"
    using lo hi by (rule signed_take_bit_int_eq_self)
  finally show ?thesis .
qed

lemma strategy_mtime_sign:
  assumes "i_mtime a < 2 ^ 31" and "i_mtime b < 2 ^ 31"
  shows "(0 < ouichefs_fblocks_strategy_mtime a b) = (i_mtime b < i_mtime a)"
  using strategy_exact [OF assms]
  by (simp add: ouichefs_fblocks_strategy_mtime_def word_less_def)

lemma strategy_size_sign:
  assumes "i_size a < 2 ^ 31" and "i_size b < 2 ^ 31"
  shows "(0 < ouichefs_strategy_size a b) = (i_size a < i_size b)"
  using strategy_exact [OF assms(2,1)]
  by (simp add: ouichefs_strategy_size_def word_less_def)

lemma strategy_by_size_sign:
  assumes "i_size a < 2 ^ 31" and "i_size b < 2 ^ 31"
  shows "(0 < strategy_by_size a b) = (i_size b < i_size a)"
  using strategy_exact [OF assms]
  by (simp add: strategy_by_size_def word_less_def)

lemmas walk_defs = ouichefs_iget_def iput_def ouichefs_fblocks_action_def

text \<open>
  C3. With the strategy of \<^verbatim>\<open>strategy_changer.c\<close> installed, the pass over two
  unreferenced files of 5 and 10 bytes keeps the first, smaller one as the victim:
  \<^verbatim>\<open>strategy_by_size\<close> is positive when the victim is the larger of the two.
\<close>

theorem strategy_by_size_keeps_smallest:
  "i_size (ex_file_inode 12 7 5) < i_size (ex_file_inode 13 7 10)
   \<and> ouichefs_iterate 1 ex_params 1 (Some ouichefs_fblocks_action)
        (snd (uname_init (two_files_fs 7 5 7 10))) \<lparr>kin_parent = None, kin_inode = None\<rparr>
      = Some (Inr (snd (uname_init (two_files_fs 7 5 7 10)),
                   \<lparr>kin_parent = Some 1, kin_inode = Some 3\<rparr>))"
  by (simp add: uname_init_def two_files_fs_def ex_defs blk_defs walk_defs strategy_by_size_def
      fun_upd_idem)

text \<open>
  C1. The default strategy returns the difference of the modification times as an
  \<^verbatim>\<open>int\<close>. For a victim modified at second \<open>2^31\<close> and a candidate modified at second 0
  the difference wraps to a negative number, and the newer file stays the victim.
\<close>

theorem strategy_mtime_wraps:
  "i_mtime (ex_file_inode 13 0 5) < i_mtime (ex_file_inode 12 0x80000000 5)
   \<and> ouichefs_iterate 1 ex_params 1 (Some ouichefs_fblocks_action)
        (two_files_fs 0x80000000 5 0 5) \<lparr>kin_parent = None, kin_inode = None\<rparr>
      = Some (Inr (two_files_fs 0x80000000 5 0 5, \<lparr>kin_parent = Some 1, kin_inode = Some 3\<rparr>))"
  by (simp add: two_files_fs_def ex_defs blk_defs walk_defs ouichefs_fblocks_strategy_mtime_def
      fun_upd_idem)

subsection \<open>Creation in a full directory without a victim\<close>

text \<open>The directory walk changes nothing but the reference counts of the host.\<close>

lemma only_counts_refl: "only_counts s s"
  by (simp add: only_counts_def)

lemma only_counts_trans: "only_counts s s1 \<Longrightarrow> only_counts s1 s2 \<Longrightarrow> only_counts s s2"
  unfolding only_counts_def by (metis fs.surjective fs.update_convs(9))

lemma only_counts_iget: "ouichefs_iget s ino = Inr s1 \<Longrightarrow> only_counts s s1"
  by (auto simp: ouichefs_iget_def only_counts_def split: if_splits option.splits)

lemma only_counts_iput: "only_counts s (iput ino s)"
  by (simp add: iput_def only_counts_def)

lemma iterate_only_counts:
  fixes action :: "(nat \<Rightarrow> nat \<Rightarrow> fs \<Rightarrow> 'd \<Rightarrow> fault + 'd) option"
  shows "\<forall>s' data'. ouichefs_iterate n c dir action s data = Some (Inr (s', data')) \<longrightarrow> only_counts s s'"
    and "\<forall>s' data'. iterate_entries n c dir action files s data = Some (Inr (s', data')) \<longrightarrow> only_counts s s'"
proof (induction n c dir action s data and n c dir action files s data
       rule: ouichefs_iterate_iterate_entries.induct)
  case (1 c dir action s data)
  then show ?case by simp
next
  case (2 n c dir action s data)
  then show ?case
    by (auto simp: only_counts_refl split: option.splits sum.splits)
next
  case (3 n c dir action s data)
  then show ?case by (simp add: only_counts_refl)
next
  case (4 n c dir action f fs s data)
  show ?case
  proof (intro allI impI)
    fix s' data'
    assume run: "iterate_entries n c dir action (f # fs) s data = Some (Inr (s', data'))"
    show "only_counts s s'"
    proof (cases "inode f = 0")
      case True
      with run show ?thesis by (simp add: only_counts_refl)
    next
      case nz: False
      from run nz obtain s1 i where ig: "ouichefs_iget s (inode f) = Inr s1"
        and i: "inodes s1 (inode f) = Some i"
        by (auto split: sum.splits option.splits)
      note c1 = only_counts_iget [OF ig]
      show ?thesis
      proof (cases "S_ISDIR (i_mode i)")
        case True
        from run nz ig i True obtain s2 data2 where
          sub: "ouichefs_iterate n c (inode f) action s1 data = Some (Inr (s2, data2))"
          and rest: "iterate_entries n c dir action fs s2 data2 = Some (Inr (s', data'))"
          by (auto split: option.splits sum.splits)
        from "4.IH"(1) [OF nz ig i True] sub have "only_counts s1 s2" by blast
        moreover from "4.IH"(2) [OF nz ig i True sub] rest have "only_counts s2 s'"
          by (metis (no_types, lifting) old.prod.exhaust prod.inject sum.inject option.inject)
        ultimately show ?thesis using c1 only_counts_trans by blast
      next
        case nd: False
        show ?thesis
        proof (cases "S_ISREG (i_mode i)")
          case nr: False
          from run nz ig i nd nr have
            rest: "iterate_entries n c dir action fs s1 data = Some (Inr (s', data'))"
            by simp
          from "4.IH"(5) [OF nz ig i nd nr] rest have "only_counts s1 s'" by blast
          then show ?thesis using c1 only_counts_trans by blast
        next
          case reg: True
          note c2 = only_counts_trans [OF c1 only_counts_iput [of s1 "inode f"]]
          show ?thesis
          proof (cases action)
            case None
            from run nz ig i nd reg None have
              rest: "iterate_entries n c dir action fs (iput (inode f) s1) data = Some (Inr (s', data'))"
              by simp
            from "4.IH"(3) [OF nz ig i nd reg None] rest have "only_counts (iput (inode f) s1) s'"
              by blast
            then show ?thesis using c2 only_counts_trans by blast
          next
            case (Some a)
            from run nz ig i nd reg Some obtain data2 where
              act: "a dir (inode f) (iput (inode f) s1) data = Inr data2"
              and rest: "iterate_entries n c dir action fs (iput (inode f) s1) data2 = Some (Inr (s', data'))"
              by (auto split: sum.splits)
            from "4.IH"(4) [OF nz ig i nd reg Some act] rest have "only_counts (iput (inode f) s1) s'"
              by blast
            then show ?thesis using c2 only_counts_trans by blast
          qed
        qed
      qed
    qed
  qed
qed

text \<open>More fuel does not change the result of a walk that has ended, nor that of the
  eviction pass or of a creation.\<close>

lemma iterate_fuel_Suc:
  fixes action :: "(nat \<Rightarrow> nat \<Rightarrow> fs \<Rightarrow> 'd \<Rightarrow> fault + 'd) option"
  shows "\<forall>r. ouichefs_iterate n c dir action s data = Some r \<longrightarrow>
           ouichefs_iterate (Suc n) c dir action s data = Some r"
    and "\<forall>r. iterate_entries n c dir action files s data = Some r \<longrightarrow>
           iterate_entries (Suc n) c dir action files s data = Some r"
proof (induction n c dir action s data and n c dir action files s data
       rule: ouichefs_iterate_iterate_entries.induct)
  case (1 c dir action s data)
  then show ?case by simp
next
  case (2 n c dir action s data)
  show ?case
  proof (intro allI impI)
    fix r assume run: "ouichefs_iterate (Suc n) c dir action s data = Some r"
    show "ouichefs_iterate (Suc (Suc n)) c dir action s data = Some r"
    proof (cases "inodes s dir")
      case None
      with run show ?thesis by simp
    next
      case (Some d)
      show ?thesis
      proof (cases "blocks s (index_block d)")
        case None
        with run Some show ?thesis by simp
      next
        case b: (Some b)
        show ?thesis
        proof (cases "dir_block c b")
          case (Inl e)
          with run Some b show ?thesis by simp
        next
          case (Inr files)
          with run Some b have "iterate_entries n c dir action files s data = Some r" by simp
          with "2.IH" [OF Some b Inr] have "iterate_entries (Suc n) c dir action files s data = Some r"
            by blast
          with Some b Inr show ?thesis by simp
        qed
      qed
    qed
  qed
next
  case (3 n c dir action s data)
  then show ?case by simp
next
  case (4 n c dir action f fs s data)
  show ?case
  proof (intro allI impI)
    fix r assume run: "iterate_entries n c dir action (f # fs) s data = Some r"
    show "iterate_entries (Suc n) c dir action (f # fs) s data = Some r"
    proof (cases "inode f = 0")
      case True
      with run show ?thesis by simp
    next
      case nz: False
      show ?thesis
      proof (cases "ouichefs_iget s (inode f)")
        case (Inl err)
        with run nz show ?thesis by simp
      next
        case ig: (Inr s1)
        show ?thesis
        proof (cases "inodes s1 (inode f)")
          case None
          with run nz ig show ?thesis by simp
        next
          case i: (Some i)
          show ?thesis
          proof (cases "S_ISDIR (i_mode i)")
            case True
            show ?thesis
            proof (cases "ouichefs_iterate n c (inode f) action s1 data")
              case None
              with run nz ig i True show ?thesis by simp
            next
              case sub: (Some r1)
              from "4.IH"(1) [OF nz ig i True] sub
              have sub': "ouichefs_iterate (Suc n) c (inode f) action s1 data = Some r1" by blast
              show ?thesis
              proof (cases r1)
                case (Inl e)
                from run nz ig i True sub Inl have "r = Inl e" by simp
                with nz ig i True sub' Inl show ?thesis by (simp del: ouichefs_iterate.simps)
              next
                case (Inr p)
                obtain s2 data2 where p: "p = (s2, data2)" by (cases p)
                from run nz ig i True sub Inr p
                have "iterate_entries n c dir action fs s2 data2 = Some r" by simp
                with "4.IH"(2) [OF nz ig i True sub [unfolded Inr p] refl refl]
                have "iterate_entries (Suc n) c dir action fs s2 data2 = Some r" by blast
                with nz ig i True sub' Inr p show ?thesis by (simp del: ouichefs_iterate.simps)
              qed
            qed
          next
            case nd: False
            show ?thesis
            proof (cases "S_ISREG (i_mode i)")
              case nr: False
              from run nz ig i nd nr have "iterate_entries n c dir action fs s1 data = Some r" by simp
              with "4.IH"(5) [OF nz ig i nd nr]
              have "iterate_entries (Suc n) c dir action fs s1 data = Some r" by blast
              with nz ig i nd nr show ?thesis by simp
            next
              case reg: True
              show ?thesis
              proof (cases action)
                case None
                from run nz ig i nd reg None
                have "iterate_entries n c dir action fs (iput (inode f) s1) data = Some r" by simp
                with "4.IH"(3) [OF nz ig i nd reg None]
                have "iterate_entries (Suc n) c dir action fs (iput (inode f) s1) data = Some r" by blast
                with nz ig i nd reg None show ?thesis by simp
              next
                case (Some a)
                show ?thesis
                proof (cases "a dir (inode f) (iput (inode f) s1) data")
                  case (Inl e)
                  with run nz ig i nd reg Some show ?thesis by simp
                next
                  case (Inr data2)
                  from run nz ig i nd reg Some Inr
                  have "iterate_entries n c dir action fs (iput (inode f) s1) data2 = Some r" by simp
                  with "4.IH"(4) [OF nz ig i nd reg Some Inr]
                  have "iterate_entries (Suc n) c dir action fs (iput (inode f) s1) data2 = Some r"
                    by blast
                  with nz ig i nd reg Some Inr show ?thesis by simp
                qed
              qed
            qed
          qed
        qed
      qed
    qed
  qed
qed

lemma iterate_fuel_mono:
  assumes "ouichefs_iterate n c dir action s data = Some r" and "n \<le> m"
  shows "ouichefs_iterate m c dir action s data = Some r"
  using assms(2,1)
proof (induction rule: dec_induct)
  case base
  then show ?case .
next
  case (step k)
  from iterate_fuel_Suc(1) [rule_format, OF step.IH [OF step.prems]] show ?case .
qed

lemma fblocks_fuel_mono:
  assumes "ouichefs_fblocks n c h dir s = Some r" and "n \<le> m"
  shows "ouichefs_fblocks m c h dir s = Some r"
proof -
  from assms(1) obtain w where w: "ouichefs_iterate n c dir (Some ouichefs_fblocks_action) s
      \<lparr>kin_parent = None, kin_inode = None\<rparr> = Some w"
    by (auto simp: ouichefs_fblocks_def split: option.splits)
  from iterate_fuel_mono [OF w assms(2)] w assms(1) show ?thesis
    by (simp add: ouichefs_fblocks_def)
qed

lemma create_fuel_mono:
  assumes cr: "ouichefs_create n c h dir dentry mode s = Some r" and le: "n \<le> m"
  shows "ouichefs_create m c h dir dentry mode s = Some r"
proof (cases "ouichefs_fblocks n c h dir s")
  case None
  with cr show ?thesis
    by (auto simp: ouichefs_create_def split: if_splits option.splits sum.splits)
next
  case (Some w)
  from fblocks_fuel_mono [OF Some le] Some
  have eq: "ouichefs_fblocks m c h dir s = ouichefs_fblocks n c h dir s" by simp
  show ?thesis using cr unfolding ouichefs_create_def eq .
qed

text \<open>
  C2. When the last slot of the parent directory is used, \<^verbatim>\<open>ouichefs_create\<close> runs the
  eviction pass on that directory. If the walk ends without a victim, the pass returns
  \<^verbatim>\<open>-1\<close> and the creation \<^verbatim>\<open>-EMLINK\<close>; the blocks (hence the directory entries), the
  inodes, both bitmaps and the counters of the volume are as before.
\<close>

theorem create_full_no_victim:
  assumes name: "strlen (d_name dentry) \<le> FILENAME_LEN c"
    and d: "inodes s dir = Some d" and db: "blocks s (index_block d) = Some db"
    and files: "dir_block c db = Inr files" and max: "0 < MAX_SUBFILES c"
    and full: "inode (files ! (MAX_SUBFILES c - 1)) \<noteq> 0"
    and walk: "ouichefs_iterate fuel c dir (Some ouichefs_fblocks_action) s
                 \<lparr>kin_parent = None, kin_inode = None\<rparr> = Some (Inr (s1, victim))"
    and none: "kin_inode victim = None"
  shows "ouichefs_fblocks fuel c h dir s = Some (Inr (MinusOne, s1))
       \<and> ouichefs_create fuel c h dir dentry mode s = Some (Inr (EMLINK, dentry, s1))
       \<and> blocks s1 = blocks s \<and> inodes s1 = inodes s
       \<and> ifree_bitmap s1 = ifree_bitmap s \<and> bfree_bitmap s1 = bfree_bitmap s
       \<and> nr_free_inodes s1 = nr_free_inodes s \<and> nr_free_blocks s1 = nr_free_blocks s
       \<and> nr_inodes s1 = nr_inodes s \<and> nr_blocks s1 = nr_blocks s"
proof -
  have fb: "ouichefs_fblocks fuel c h dir s = Some (Inr (MinusOne, s1))"
    using walk none by (simp add: ouichefs_fblocks_def)
  have cr: "ouichefs_create fuel c h dir dentry mode s = Some (Inr (EMLINK, dentry, s1))"
    using name d db files max full fb by (simp add: ouichefs_create_def)
  have "only_counts s s1" by (rule iterate_only_counts(1) [rule_format, OF walk])
  then have "s1 = s\<lparr>i_count := i_count s1\<rparr>" by (simp add: only_counts_def)
  then have "blocks s1 = blocks s" "inodes s1 = inodes s"
    "ifree_bitmap s1 = ifree_bitmap s" "bfree_bitmap s1 = bfree_bitmap s"
    "nr_free_inodes s1 = nr_free_inodes s" "nr_free_blocks s1 = nr_free_blocks s"
    "nr_inodes s1 = nr_inodes s" "nr_blocks s1 = nr_blocks s"
    by (metis fs.select_convs fs.surjective fs.update_convs(9))+
  with fb cr show ?thesis by simp
qed

theorem create_full_no_victim_witness:
  "ouichefs_fblocks 1 ex_params ex_host 1 busy_fs = Some (Inr (MinusOne, busy_fs))
   \<and> ouichefs_create 1 ex_params ex_host 1 \<lparr>d_name = ''c'', d_inode = None\<rparr> 0x81A4 busy_fs
       = Some (Inr (EMLINK, \<lparr>d_name = ''c'', d_inode = None\<rparr>, busy_fs))"
proof -
  let ?files = "[\<lparr>inode = 3, filename = ''a''\<rparr>, \<lparr>inode = 4, filename = ''b''\<rparr>]"
  have name: "strlen (d_name \<lparr>d_name = ''c'', d_inode = None\<rparr>) \<le> FILENAME_LEN ex_params"
    by (simp add: str_defs ex_defs)
  have d: "inodes busy_fs 1 = Some (ex_dir_inode 10)"
    by (simp add: busy_fs_def two_files_fs_def ex_defs)
  have db: "blocks busy_fs (index_block (ex_dir_inode 10)) = Some (Dir ?files)"
    by (simp add: busy_fs_def two_files_fs_def ex_defs)
  have files: "dir_block ex_params (Dir ?files) = Inr ?files"
    by (simp add: dir_block_def ex_defs)
  have max: "0 < MAX_SUBFILES ex_params" by (simp add: ex_defs)
  have full: "inode (?files ! (MAX_SUBFILES ex_params - 1)) \<noteq> 0" by (simp add: ex_defs)
  have walk: "ouichefs_iterate 1 ex_params 1 (Some ouichefs_fblocks_action) busy_fs
                 \<lparr>kin_parent = None, kin_inode = None\<rparr>
              = Some (Inr (busy_fs, \<lparr>kin_parent = None, kin_inode = None\<rparr>))"
    by (simp add: busy_fs_def two_files_fs_def ex_defs blk_defs walk_defs fun_upd_idem)
  have none: "kin_inode \<lparr>kin_parent = None, kin_inode = None\<rparr> = None" by simp
  show ?thesis
    using create_full_no_victim [OF name d db files max full walk none, of ex_host "0x81A4"]
    by simp
qed

subsection \<open>Creation followed by lookup\<close>

lemma put_block_fields:
  "blocks (put_block b s) = blocks s" "inodes (put_block b s) = inodes s"
  "ifree_bitmap (put_block b s) = ifree_bitmap s" "nr_inodes (put_block b s) = nr_inodes s"
  by (simp_all add: put_block_def)

lemma put_inode_fields:
  "blocks (put_inode x s) = blocks s" "inodes (put_inode x s) = inodes s"
  "ifree_bitmap (put_inode x s) = (ifree_bitmap s)(x := True)" "nr_inodes (put_inode x s) = nr_inodes s"
  by (simp_all add: put_inode_def)

lemma upd_inode_fields:
  "blocks (upd_inode x f s) = blocks s"
  "inodes (upd_inode x f s) = (inodes s)(x := map_option f (inodes s x))"
  "ifree_bitmap (upd_inode x f s) = ifree_bitmap s" "nr_inodes (upd_inode x f s) = nr_inodes s"
  by (simp_all add: upd_inode_def)

lemma touch_dir_fields:
  "blocks (touch_dir h x l s) = blocks s"
  "ifree_bitmap (touch_dir h x l s) = ifree_bitmap s" "nr_inodes (touch_dir h x l s) = nr_inodes s"
  "inodes (touch_dir h x l s) y = (if y = x then map_option (\<lambda>d. d\<lparr>i_mtime := current_time h,
      i_atime := current_time h, i_ctime := current_time h, i_nlink := l (i_nlink d)\<rparr>) (inodes s x)
      else inodes s y)"
  by (simp_all add: touch_dir_def upd_inode_def)

lemma dir_block_Zeroed: "dir_block c Zeroed = Inr (replicate (MAX_SUBFILES c) zero_file)"
  by (simp add: dir_block_def)

lemma dir_kept_zero:
  "dir_kept c dir dirbno files s \<Longrightarrow> dir_kept c dir dirbno files (s\<lparr>blocks := (blocks s)(x \<mapsto> Zeroed)\<rparr>)"
  by (auto simp: dir_kept_def dir_block_Zeroed)

lemma dir_kept_put_block:
  "dir_kept c dir dirbno files s \<Longrightarrow> dir_kept c dir dirbno files (put_block b s)"
  by (simp add: dir_kept_def put_block_fields)

lemma dir_kept_put_block_zero:
  "dir_kept c dir dirbno files s \<Longrightarrow>
   dir_kept c dir dirbno files ((put_block b s)\<lparr>blocks := (blocks s)(x \<mapsto> Zeroed)\<rparr>)"
  by (auto simp: dir_kept_def put_block_def dir_block_Zeroed)

lemma remove_data_blocks_kept:
  "remove_data_blocks c bno n i s = Inr s' \<Longrightarrow> dir_kept c dir dirbno files s \<Longrightarrow>
   dir_kept c dir dirbno files s'"
proof (induction c bno n i s rule: remove_data_blocks.induct)
  case (1 c bno n i s)
  show ?case
  proof (cases "i < n")
    case False
    with "1.prems" show ?thesis by simp
  next
    case True
    from "1.prems"(1) True obtain fb bs where fb: "blocks s bno = Some fb"
      and bs: "file_index_block c fb = Inr bs" and len: "\<not> length bs \<le> i"
      by (subst (asm) remove_data_blocks.simps) (auto split: option.splits sum.splits if_splits)
    show ?thesis
    proof (cases "bs ! i = 0")
      case z: True
      from "1.prems"(1) True fb bs len z have "remove_data_blocks c bno n (Suc i) s = Inr s'"
        by (subst (asm) remove_data_blocks.simps) simp
      from "1.IH"(1) [OF _ fb bs len z this "1.prems"(2)] True show ?thesis by simp
    next
      case nz: False
      show ?thesis
      proof (cases "blocks s (bs ! i)")
        case None
        from "1.prems"(1) True fb bs len nz None
        have "remove_data_blocks c bno n (Suc i) (put_block (bs ! i) s) = Inr s'"
          by (subst (asm) remove_data_blocks.simps) simp
        from "1.IH"(2) [OF _ fb bs len nz None this dir_kept_put_block [OF "1.prems"(2)]] True
        show ?thesis by simp
      next
        case (Some a)
        from "1.prems"(1) True fb bs len nz Some
        have "remove_data_blocks c bno n (Suc i)
                ((put_block (bs ! i) s)\<lparr>blocks := (blocks s)(bs ! i \<mapsto> Zeroed)\<rparr>) = Inr s'"
          by (subst (asm) remove_data_blocks.simps) simp
        from "1.IH"(3) [OF _ fb bs len nz Some this dir_kept_put_block_zero [OF "1.prems"(2)]] True
        show ?thesis by simp
      qed
    qed
  qed
qed

lemma memmove_files_sub:
  "memmove_files files dst src n = Inr r \<Longrightarrow> length r = length files \<and> set r \<subseteq> set files"
proof -
  assume a: "memmove_files files dst src n = Inr r"
  show ?thesis
  proof (cases "n = 0")
    case True
    with a show ?thesis by (simp add: memmove_files_def)
  next
    case False
    with a have b: "0 < n" "0 \<le> dst" "0 \<le> src" "dst + n \<le> int (length files)"
        "src + n \<le> int (length files)"
      and r: "r = take (nat dst) files @ take (nat n) (drop (nat src) files) @ drop (nat (dst + n)) files"
      by (auto simp: memmove_files_def split: if_splits)
    have "set r \<subseteq> set files"
      unfolding r using set_take_subset set_drop_subset by fastforce
    moreover have "length r = length files"
      unfolding r using b by (simp add: nat_add_distrib)
    ultimately show ?thesis by simp
  qed
qed

lemma memset_file_sub:
  assumes "memset_file files idx = Inr r"
  shows "length r = length files \<and> set r \<subseteq> insert zero_file (set files)"
proof -
  from assms have "r = files[nat idx := zero_file]"
    by (simp add: memset_file_def split: if_splits)
  then show ?thesis by (simp add: set_update_subset_insert)
qed

lemma remove_entry_sub:
  assumes "remove_entry c files ino = Inr files'"
  shows "length files' = length files \<and> set files' \<subseteq> insert zero_file (set files)"
proof -
  obtain f_id nr_subs where sc: "remove_scan ino files 0 (- 1) = (f_id, nr_subs)"
    by (cases "remove_scan ino files 0 (- 1)")
  with assms have cf: "compact_files c files f_id nr_subs = Inr files'"
    by (simp add: remove_entry_def)
  then obtain mid where mid: "mid = files \<or> memmove_files files f_id (f_id + 1) (int nr_subs - f_id - 1) = Inr mid"
    and ms: "memset_file mid (int nr_subs - 1) = Inr files'"
    by (auto simp: compact_files_def split: if_splits sum.splits)
  from mid have "length mid = length files \<and> set mid \<subseteq> set files"
    using memmove_files_sub by blast
  with memset_file_sub [OF ms] show ?thesis by auto
qed

lemma remove_content_kept:
  assumes rc: "remove_content c inode_rec s = Inr s'" and k: "dir_kept c dir dirbno files s"
  shows "dir_kept c dir dirbno files s'"
proof (cases "blocks s (index_block inode_rec)")
  case None
  with rc have "s' = s" by (simp add: remove_content_def)
  with k show ?thesis by simp
next
  case (Some fb)
  show ?thesis
  proof (cases "S_ISDIR (i_mode inode_rec)")
    case True
    with rc Some have "s' = s\<lparr>blocks := (blocks s)(index_block inode_rec \<mapsto> Zeroed)\<rparr>"
      by (simp add: remove_content_def bindf_def)
    with k show ?thesis by (simp add: dir_kept_zero)
  next
    case False
    with rc Some obtain s2 where
      loop: "remove_data_blocks c (index_block inode_rec) (unat (i_blocks inode_rec - 1)) 0 s = Inr s2"
      and s': "s' = s2\<lparr>blocks := (blocks s2)(index_block inode_rec \<mapsto> Zeroed)\<rparr>"
      by (cases "remove_data_blocks c (index_block inode_rec) (unat (i_blocks inode_rec - 1)) 0 s")
         (simp_all add: remove_content_def bindf_def)
    from remove_data_blocks_kept [OF loop k] show ?thesis
      unfolding s' by (rule dir_kept_zero)
  qed
qed

lemma dir_kept_write_parent:
  assumes k: "dir_kept c dir dirbno files s"
    and pb: "blocks s pbno = Some b" and pf: "dir_block c b = Inr pfiles"
    and re: "remove_entry c pfiles ino = Inr pfiles'"
  shows "dir_kept c dir dirbno files (s\<lparr>blocks := (blocks s)(pbno \<mapsto> Dir pfiles')\<rparr>)"
proof -
  from remove_entry_sub [OF re] have sub: "length pfiles' = length pfiles"
    "set pfiles' \<subseteq> insert zero_file (set pfiles)" by simp_all
  from pf have "length pfiles = MAX_SUBFILES c"
    by (auto simp: dir_block_def split: block.splits if_splits)
  with sub have v: "dir_block c (Dir pfiles') = Inr pfiles'" by (simp add: dir_block_def)
  show ?thesis
  proof (cases "pbno = dirbno")
    case False
    with k show ?thesis by (simp add: dir_kept_def)
  next
    case True
    with k pb pf have "set pfiles \<subseteq> insert zero_file (set files)" by (auto simp: dir_kept_def)
    with sub have "set pfiles' \<subseteq> insert zero_file (set files)" by auto
    with k v True show ?thesis by (auto simp: dir_kept_def)
  qed
qed

lemma dir_kept_touch:
  "dir_kept c dir dirbno files s \<Longrightarrow> dir_kept c dir dirbno files (touch_dir h x l s)"
  by (auto simp: dir_kept_def touch_dir_fields)

lemma dir_kept_clean:
  "dir_kept c dir dirbno files s \<Longrightarrow> ino \<noteq> dir \<Longrightarrow> dir_kept c dir dirbno files (clean_inode ino bno s)"
  by (auto simp: dir_kept_def clean_inode_def put_inode_fields put_block_fields upd_inode_fields)

lemma ouichefs_remove_kept:
  assumes rm: "ouichefs_remove c h parent ino s = Inr (r, s')"
    and k: "dir_kept c dir dirbno files s" and ne: "ino \<noteq> dir"
  shows "dir_kept c dir dirbno files s'"
proof (cases "r = OK")
  case False
  with rm have "s' = s"
    by (auto simp: ouichefs_remove_def bindf_def split: option.splits sum.splits prod.splits)
  with k show ?thesis by simp
next
  case True
  with rm obtain d inode_rec db pfiles pfiles' s2 where
    "inodes s parent = Some d" and "inodes s ino = Some inode_rec"
    and pb: "blocks s (index_block d) = Some db" and pf: "dir_block c db = Inr pfiles"
    and re: "remove_entry c pfiles ino = Inr pfiles'"
    and rc: "remove_content c inode_rec
               (touch_dir h parent (\<lambda>l. if S_ISDIR (i_mode inode_rec) then l - 1 else l)
                  (s\<lparr>blocks := (blocks s)(index_block d \<mapsto> Dir pfiles')\<rparr>)) = Inr s2"
    and s': "s' = clean_inode ino (index_block inode_rec) s2"
    by (auto simp: ouichefs_remove_def bindf_def split: option.splits sum.splits prod.splits)
  from dir_kept_write_parent [OF k pb pf re]
  have "dir_kept c dir dirbno files (s\<lparr>blocks := (blocks s)(index_block d \<mapsto> Dir pfiles')\<rparr>)" .
  then have "dir_kept c dir dirbno files s2"
    using remove_content_kept [OF rc] dir_kept_touch by blast
  then show ?thesis unfolding s' using ne by (rule dir_kept_clean)
qed

lemma only_counts_inodes: "only_counts s s' \<Longrightarrow> inodes s' = inodes s"
  unfolding only_counts_def by (metis fs.select_convs(2) fs.surjective fs.update_convs(9))

lemma iterate_invariant:
  fixes action :: "(nat \<Rightarrow> nat \<Rightarrow> fs \<Rightarrow> 'd \<Rightarrow> fault + 'd) option" and P :: "'d \<Rightarrow> bool"
  shows "(\<forall>a d ino st v v' i. action = Some a \<longrightarrow> a d ino st v = Inr v' \<longrightarrow> inodes st = tbl
            \<longrightarrow> tbl ino = Some i \<longrightarrow> S_ISREG (i_mode i) \<longrightarrow> P v \<longrightarrow> P v') \<longrightarrow>
         (\<forall>s' data'. ouichefs_iterate n c dir action s data = Some (Inr (s', data')) \<longrightarrow>
            inodes s = tbl \<longrightarrow> P data \<longrightarrow> P data')"
    and "(\<forall>a d ino st v v' i. action = Some a \<longrightarrow> a d ino st v = Inr v' \<longrightarrow> inodes st = tbl
            \<longrightarrow> tbl ino = Some i \<longrightarrow> S_ISREG (i_mode i) \<longrightarrow> P v \<longrightarrow> P v') \<longrightarrow>
         (\<forall>s' data'. iterate_entries n c dir action files s data = Some (Inr (s', data')) \<longrightarrow>
            inodes s = tbl \<longrightarrow> P data \<longrightarrow> P data')"
proof (induction n c dir action s data and n c dir action files s data
       rule: ouichefs_iterate_iterate_entries.induct)
  case (1 c dir action s data)
  then show ?case by simp
next
  case (2 n c dir action s data)
  show ?case
  proof (intro allI impI)
    fix s' data'
    assume step: "\<forall>a d ino st v v' i. action = Some a \<longrightarrow> a d ino st v = Inr v' \<longrightarrow> inodes st = tbl
            \<longrightarrow> tbl ino = Some i \<longrightarrow> S_ISREG (i_mode i) \<longrightarrow> P v \<longrightarrow> P v'"
      and run: "ouichefs_iterate (Suc n) c dir action s data = Some (Inr (s', data'))"
      and tb: "inodes s = tbl" and P: "P data"
    show "P data'"
    proof (cases "inodes s dir")
      case None
      with run show ?thesis by simp
    next
      case (Some d)
      show ?thesis
      proof (cases "blocks s (index_block d)")
        case None
        with run Some P show ?thesis by simp
      next
        case b: (Some b)
        with run Some obtain files where files: "dir_block c b = Inr files"
          and rest: "iterate_entries n c dir action files s data = Some (Inr (s', data'))"
          by (cases "dir_block c b") simp_all
        from "2.IH" [OF Some b files] step rest tb P show ?thesis by blast
      qed
    qed
  qed
next
  case (3 n c dir action s data)
  then show ?case by simp
next
  case (4 n c dir action f fs s data)
  show ?case
  proof (intro allI impI)
    fix s' data'
    assume step: "\<forall>a d ino st v v' i. action = Some a \<longrightarrow> a d ino st v = Inr v' \<longrightarrow> inodes st = tbl
            \<longrightarrow> tbl ino = Some i \<longrightarrow> S_ISREG (i_mode i) \<longrightarrow> P v \<longrightarrow> P v'"
      and run: "iterate_entries n c dir action (f # fs) s data = Some (Inr (s', data'))"
      and tb: "inodes s = tbl" and P: "P data"
    show "P data'"
    proof (cases "inode f = 0")
      case True
      with run P show ?thesis by simp
    next
      case nz: False
      from run nz obtain s1 i where ig: "ouichefs_iget s (inode f) = Inr s1"
        and i: "inodes s1 (inode f) = Some i"
        by (auto split: sum.splits option.splits)
      have tb1: "inodes s1 = tbl"
        using only_counts_inodes [OF only_counts_iget [OF ig]] tb by simp
      show ?thesis
      proof (cases "S_ISDIR (i_mode i)")
        case True
        from run nz ig i True obtain s2 data2 where
          sub: "ouichefs_iterate n c (inode f) action s1 data = Some (Inr (s2, data2))"
          and rest: "iterate_entries n c dir action fs s2 data2 = Some (Inr (s', data'))"
          by (auto split: option.splits sum.splits)
        from "4.IH"(1) [OF nz ig i True] step sub tb1 P have P2: "P data2" by blast
        have tb2: "inodes s2 = tbl"
          using only_counts_inodes [OF iterate_only_counts(1) [rule_format, OF sub]] tb1 by simp
        have "Inr (s2, data2) = (Inr (s2, data2) :: fault + fs \<times> 'd)" by simp
        from "4.IH"(2) [OF nz ig i True sub this refl] step rest tb2 P2 show ?thesis by blast
      next
        case nd: False
        show ?thesis
        proof (cases "S_ISREG (i_mode i)")
          case nr: False
          from run nz ig i nd nr have
            rest: "iterate_entries n c dir action fs s1 data = Some (Inr (s', data'))"
            by simp
          from "4.IH"(5) [OF nz ig i nd nr] step rest tb1 P show ?thesis by blast
        next
          case reg: True
          have tbp: "inodes (iput (inode f) s1) = tbl" using tb1 by (simp add: iput_def)
          show ?thesis
          proof (cases action)
            case None
            from run nz ig i nd reg None have
              rest: "iterate_entries n c dir action fs (iput (inode f) s1) data = Some (Inr (s', data'))"
              by simp
            from "4.IH"(3) [OF nz ig i nd reg None] step rest tbp P show ?thesis by blast
          next
            case (Some a)
            from run nz ig i nd reg Some obtain data2 where
              act: "a dir (inode f) (iput (inode f) s1) data = Inr data2"
              and rest: "iterate_entries n c dir action fs (iput (inode f) s1) data2 = Some (Inr (s', data'))"
              by (auto split: sum.splits)
            from i tb1 have "tbl (inode f) = Some i" by simp
            with step Some act tbp reg P have P2: "P data2" by blast
            from "4.IH"(4) [OF nz ig i nd reg Some act] step rest tbp P2 show ?thesis by blast
          qed
        qed
      qed
    qed
  qed
qed

lemma dir_kept_only_counts:
  assumes "only_counts s s'" and "dir_kept c dir dirbno files s"
  shows "dir_kept c dir dirbno files s'"
proof -
  from assms(1) have "s' = s\<lparr>i_count := i_count s'\<rparr>" by (simp add: only_counts_def)
  then have "inodes s' = inodes s" "blocks s' = blocks s" "ifree_bitmap s' = ifree_bitmap s"
    by (metis fs.select_convs fs.surjective fs.update_convs(9))+
  with assms(2) show ?thesis by (simp add: dir_kept_def)
qed

lemma dir_kept_d_alias:
  "dir_kept c dir dirbno files s \<Longrightarrow> dir_kept c dir dirbno files (s\<lparr>d_alias := a\<rparr>)"
  by (simp add: dir_kept_def)

lemma not_reg_if_dir: "S_ISDIR m \<Longrightarrow> \<not> S_ISREG m"
  by (simp add: S_ISDIR_def S_ISREG_def)

lemma fblocks_action_reg:
  assumes "ouichefs_fblocks_action d ino st v = Inr v'"
    and "inodes st = tbl" and "tbl ino = Some i" and "S_ISREG (i_mode i)"
    and "\<forall>x. kin_inode v = Some x \<longrightarrow> (\<exists>j. tbl x = Some j \<and> S_ISREG (i_mode j))"
  shows "\<forall>x. kin_inode v' = Some x \<longrightarrow> (\<exists>j. tbl x = Some j \<and> S_ISREG (i_mode j))"
proof -
  from assms(1) have "v' = v \<or> v' = v\<lparr>kin_parent := Some d, kin_inode := Some ino\<rparr>"
    by (auto simp: ouichefs_fblocks_action_def bindf_def split: if_splits option.splits sum.splits)
  with assms show ?thesis by auto
qed

lemma walk_victim_reg:
  assumes walk: "ouichefs_iterate fuel c dir0 (Some ouichefs_fblocks_action) s
                   \<lparr>kin_parent = None, kin_inode = None\<rparr> = Some (Inr (s1, victim))"
    and v: "kin_inode victim = Some vino"
  shows "\<exists>j. inodes s vino = Some j \<and> S_ISREG (i_mode j)"
proof -
  let ?P = "\<lambda>v. \<forall>x. kin_inode v = Some x \<longrightarrow> (\<exists>j. inodes s x = Some j \<and> S_ISREG (i_mode j))"
  have step: "\<forall>a d ino st v v' i. Some ouichefs_fblocks_action = Some a \<longrightarrow> a d ino st v = Inr v'
      \<longrightarrow> inodes st = inodes s \<longrightarrow> inodes s ino = Some i \<longrightarrow> S_ISREG (i_mode i) \<longrightarrow> ?P v \<longrightarrow> ?P v'"
    using fblocks_action_reg by blast
  note inv = iterate_invariant(1) [where P = ?P and tbl = "inodes s", THEN mp, OF step,
      THEN spec, THEN spec, THEN mp, OF walk, THEN mp, OF refl, THEN mp]
  have "?P victim" by (rule inv) simp
  with v show ?thesis by simp
qed

lemma fblocks_kept:
  assumes fb: "ouichefs_fblocks fuel c h dir0 s = Some (Inr (r, s_e))"
    and k: "dir_kept c dir dirbno files s"
    and d: "inodes s dir = Some d" and isdir: "S_ISDIR (i_mode d)"
  shows "dir_kept c dir dirbno files s_e"
proof -
  from fb obtain s1 victim where
    walk: "ouichefs_iterate fuel c dir0 (Some ouichefs_fblocks_action) s
             \<lparr>kin_parent = None, kin_inode = None\<rparr> = Some (Inr (s1, victim))"
    by (auto simp: ouichefs_fblocks_def split: option.splits sum.splits)
  have oc: "only_counts s s1" by (rule iterate_only_counts(1) [rule_format, OF walk])
  have k1: "dir_kept c dir dirbno files s1" by (rule dir_kept_only_counts [OF oc k])
  show ?thesis
  proof (cases "kin_inode victim")
    case None
    with fb walk have "s_e = s1" by (simp add: ouichefs_fblocks_def)
    with k1 show ?thesis by simp
  next
    case (Some vino)
    from walk_victim_reg [OF walk Some] d isdir have ne: "vino \<noteq> dir"
      using not_reg_if_dir by auto
    from fb walk Some have del: "fblocks_delete c h (kin_parent victim) vino (d_find_any_alias s1 vino) s1
        = Inr (r, s_e)"
      by (simp add: ouichefs_fblocks_def)
    then obtain p r' s2 where
      route: "(d_find_any_alias s1 vino = None \<and> ouichefs_remove c h p vino s1 = Inr (r', s2))
        \<or> (\<exists>dn. d_find_any_alias s1 vino = Some dn \<and> vfs_unlink c h p dn s1 = Inr (r', s2))"
      and se: "s_e = s2"
      by (auto simp: fblocks_delete_def bindf_def split: option.splits sum.splits prod.splits)
    have "\<exists>s3. ouichefs_remove c h p vino s1 = Inr (r', s3)
        \<and> (s2 = s3 \<or> s2 = s3\<lparr>d_alias := (d_alias s3)(vino := None)\<rparr>)"
      using route
    proof
      assume "d_find_any_alias s1 vino = None \<and> ouichefs_remove c h p vino s1 = Inr (r', s2)"
      then show ?thesis by blast
    next
      assume "\<exists>dn. d_find_any_alias s1 vino = Some dn \<and> vfs_unlink c h p dn s1 = Inr (r', s2)"
      then obtain dn where dn: "d_find_any_alias s1 vino = Some dn"
        and vu: "vfs_unlink c h p dn s1 = Inr (r', s2)" by blast
      from dn have di: "d_inode dn = Some vino" by (auto simp: d_find_any_alias_def)
      from vu di show ?thesis
        by (auto simp: vfs_unlink_def ouichefs_unlink_def bindf_def
            split: sum.splits prod.splits if_splits)
    qed
    then obtain s3 where rm: "ouichefs_remove c h p vino s1 = Inr (r', s3)"
      and s2: "s2 = s3 \<or> s2 = s3\<lparr>d_alias := (d_alias s3)(vino := None)\<rparr>"
      by blast
    from ouichefs_remove_kept [OF rm k1 ne] have "dir_kept c dir dirbno files s3" .
    with s2 se show ?thesis using dir_kept_d_alias by auto
  qed
qed

lemma cstr_take_cstr: "cstr (take n (cstr name)) = take n (cstr name)"
proof -
  have "x \<noteq> CHR 0x00" if "x \<in> set (take n (takeWhile (\<lambda>ch. ch \<noteq> CHR 0x00) name))" for x
  proof -
    from that have "x \<in> set (takeWhile (\<lambda>ch. ch \<noteq> CHR 0x00) name)" by (rule in_set_takeD)
    then show ?thesis by (rule set_takeWhileD [THEN conjunct2])
  qed
  then show ?thesis
    unfolding cstr_def by (simp only: takeWhile_eq_all_conv) blast
qed

lemma strncmp0_strncpy: "strncmp0 (strncpy name n) name n"
  by (simp add: strncmp0_def strncpy_def cstr_take_cstr)

lemma first_free_shift: "first_free fs i = i + first_free fs 0"
proof (induction fs arbitrary: i)
  case Nil
  then show ?case by simp
next
  case (Cons f fs)
  from Cons [of "Suc i"] Cons [of "Suc 0"] show ?case by simp
qed

lemma lookup_scan_inserted:
  assumes "first_free files 0 < length files" and "inode e \<noteq> 0"
    and "strncmp0 (filename e) name (FILENAME_LEN c)"
    and "\<forall>f\<in>set files. inode f \<noteq> 0 \<longrightarrow> \<not> strncmp0 (filename f) name (FILENAME_LEN c)"
  shows "lookup_scan c name (files[first_free files 0 := e]) = Some (inode e)"
  using assms
proof (induction files)
  case Nil
  then show ?case by simp
next
  case (Cons f fs)
  show ?case
  proof (cases "inode f = 0")
    case True
    with Cons.prems show ?thesis by simp
  next
    case False
    have ff: "first_free (f # fs) 0 = Suc (first_free fs 0)"
      using False first_free_shift [of fs "Suc 0"] by simp
    with Cons.prems have "first_free fs 0 < length fs" by simp
    from Cons.IH [OF this Cons.prems(2,3)] Cons.prems(4)
    have "lookup_scan c name (fs[first_free fs 0 := e]) = Some (inode e)" by simp
    with False Cons.prems(4) ff show ?thesis by simp
  qed
qed

lemma get_first_free_bit_Some:
  "get_first_free_bit freemap n = Some x \<Longrightarrow> x < n \<and> freemap x"
  by (auto simp: get_first_free_bit_def find_Some_iff)

lemma get_free_inode_ok:
  assumes "get_free_inode s = (ino, s1)" and "ino \<noteq> 0"
  shows "ino < nr_inodes s \<and> ifree_bitmap s ino \<and> blocks s1 = blocks s \<and> inodes s1 = inodes s
       \<and> nr_inodes s1 = nr_inodes s"
proof (cases "get_first_free_bit (ifree_bitmap s) (nr_inodes s)")
  case None
  with assms show ?thesis by (simp add: get_free_inode_def)
next
  case (Some x)
  with assms have "x = ino" and "s1 = s\<lparr>ifree_bitmap := (ifree_bitmap s)(ino := False),
      nr_free_inodes := nr_free_inodes s - 1\<rparr>"
    by (auto simp: get_free_inode_def)
  with get_first_free_bit_Some [OF Some] show ?thesis by simp
qed

lemma get_free_block_fields:
  assumes "get_free_block s = (bno, s1)"
  shows "blocks s1 = blocks s \<and> inodes s1 = inodes s \<and> nr_inodes s1 = nr_inodes s"
  using assms by (cases "get_first_free_bit (bfree_bitmap s) (nr_blocks s)")
    (auto simp: get_free_block_def)

lemma iget_fields:
  assumes "ouichefs_iget s ino = Inr s1"
  shows "blocks s1 = blocks s \<and> inodes s1 = inodes s \<and> nr_inodes s1 = nr_inodes s
       \<and> (\<exists>i. inodes s ino = Some i) \<and> ino < nr_inodes s"
  using assms by (cases "inodes s ino") (auto simp: ouichefs_iget_def split: if_splits)

lemma new_inode_ok:
  assumes ni: "ouichefs_new_inode c h dir mode s = Inr (Inr ino, s_n)"
  shows "ino \<noteq> 0 \<and> ino < nr_inodes s \<and> ifree_bitmap s ino \<and> blocks s_n = blocks s
       \<and> nr_inodes s_n = nr_inodes s \<and> (\<exists>i. inodes s_n ino = Some i)
       \<and> (\<forall>x. x \<noteq> ino \<longrightarrow> inodes s_n x = inodes s x)"
proof -
  obtain ino' s1 where gi: "get_free_inode s = (ino', s1)" by (cases "get_free_inode s")
  from ni have m: "S_ISDIR mode \<or> S_ISREG mode" and fr: "nr_free_inodes s \<noteq> 0" "nr_free_blocks s \<noteq> 0"
    by (auto simp: ouichefs_new_inode_def split: if_splits)
  from ni gi m fr have nz: "ino' \<noteq> 0"
    by (auto simp: ouichefs_new_inode_def split: if_splits)
  from ni gi m fr nz obtain s2 where ig: "ouichefs_iget s1 ino' = Inr s2"
    by (cases "ouichefs_iget s1 ino'") (auto simp: ouichefs_new_inode_def)
  obtain bno s3 where gb: "get_free_block s2 = (bno, s3)" by (cases "get_free_block s2")
  from ni gi m fr nz ig gb have bz: "bno \<noteq> 0"
    by (auto simp: ouichefs_new_inode_def split: if_splits)
  from ni gi m fr nz ig gb bz obtain d f where "inodes s3 dir = Some d"
    and res: "ino = ino'" "s_n = upd_inode ino' f s3"
    by (cases "inodes s3 dir") (auto simp: ouichefs_new_inode_def)
  note a = get_free_inode_ok [OF gi nz] and b = iget_fields [OF ig] and cc = get_free_block_fields [OF gb]
  from a b cc res nz show ?thesis by (auto simp: upd_inode_fields)
qed

lemma new_inode_err:
  assumes "ouichefs_new_inode c h dir mode s = Inr (Inl e, s')"
  shows "e \<noteq> OK"
proof -
  obtain ino s1 where gi: "get_free_inode s = (ino, s1)" by (cases "get_free_inode s")
  show ?thesis
  proof (cases "ouichefs_iget s1 ino")
    case (Inl err)
    then have "err = EINVAL \<or> err = EIO"
      by (auto simp: ouichefs_iget_def split: if_splits option.splits)
    with assms gi Inl show ?thesis
      by (auto simp: ouichefs_new_inode_def split: if_splits)
  next
    case (Inr s2)
    obtain bno s3 where gb: "get_free_block s2 = (bno, s3)" by (cases "get_free_block s2")
    with assms gi Inr show ?thesis
      by (cases "inodes s3 dir") (auto simp: ouichefs_new_inode_def split: if_splits)
  qed
qed

lemma create_tail_lookup:
  assumes ct: "create_tail c h dir dirbno dentry mode s = Inr (OK, dentry', s1)"
    and k: "dir_kept c dir dirbno files s"
    and fresh: "\<forall>f\<in>set files. inode f \<noteq> 0 \<longrightarrow> \<not> strncmp0 (filename f) (d_name dentry) (FILENAME_LEN c)"
    and len: "strlen (d_name dentry) \<le> FILENAME_LEN c"
    and dq: "d_name dq = d_name dentry"
  shows "\<exists>ino i. d_inode dentry' = Some ino \<and> inodes s1 ino = Some i
      \<and> (\<exists>s2. ouichefs_lookup c h2 dir dq s1 = Inr (OK, dq\<lparr>d_inode := Some ino\<rparr>, s2))
      \<and> (index_block i \<noteq> dirbno \<longrightarrow> blocks s1 (index_block i) = Some Zeroed)"
proof -
  from ct obtain r s_n where ni: "ouichefs_new_inode c h dir mode s = Inr (r, s_n)"
    by (cases "ouichefs_new_inode c h dir mode s") (auto simp: create_tail_def bindf_def)
  have "r \<noteq> Inl e" for e
  proof
    assume e: "r = Inl e"
    with ct ni have "e = OK" by (simp add: create_tail_def bindf_def)
    with new_inode_err [OF ni [unfolded e]] show False by simp
  qed
  then obtain ino where r: "r = Inr ino" by (cases r) auto
  note ok = new_inode_ok [OF ni [unfolded r]]
  then obtain i where i: "inodes s_n ino = Some i" by blast
  let ?bno = "index_block i"
  let ?sz = "scrub_block ?bno s_n"
  from ct ni r i have rd: "blocks s_n ?bno \<noteq> None"
    by (cases "blocks s_n ?bno") (auto simp: create_tail_def bindf_def)
  from ct ni r i rd obtain db where db: "blocks ?sz dirbno = Some db"
    by (cases "blocks ?sz dirbno") (auto simp: create_tail_def bindf_def)
  from ct ni r i rd db obtain files_t where ft: "dir_block c db = Inr files_t"
    by (cases "dir_block c db") (auto simp: create_tail_def bindf_def)
  let ?k = "first_free files_t 0"
  let ?e = "\<lparr>inode = ino, filename = strncpy (d_name dentry) (FILENAME_LEN c)\<rparr>"
  from ct ni r i rd db ft have kk: "?k < MAX_SUBFILES c"
    and dentry': "dentry' = dentry\<lparr>d_inode := Some ino\<rparr>"
    and s1: "s1 = d_instantiate dentry ino
        (touch_dir h dir (\<lambda>l. if S_ISDIR mode then l + 1 else l)
           (write_dir dirbno (files_t[?k := ?e]) ?sz))"
    by (auto simp: create_tail_def bindf_def split: if_splits)
  from ft have lenf: "length files_t = MAX_SUBFILES c"
    by (auto simp: dir_block_def split: block.splits if_splits)
  from k obtain d where d: "inodes s dir = Some d" "index_block d = dirbno"
    and nfree: "\<not> ifree_bitmap s dir"
    and kb: "\<exists>b fs'. blocks s dirbno = Some b \<and> dir_block c b = Inr fs'
            \<and> set fs' \<subseteq> insert zero_file (set files)"
    by (auto simp: dir_kept_def)
  from ok nfree have ne: "ino \<noteq> dir" by auto
  have sub: "set files_t \<subseteq> insert zero_file (set files)"
  proof (cases "?bno = dirbno")
    case True
    with db have "db = Zeroed" by (simp add: scrub_block_def)
    with ft show ?thesis by (auto simp: dir_block_Zeroed)
  next
    case False
    with db ok have "blocks s dirbno = Some db" by (simp add: scrub_block_def)
    with kb ft show ?thesis by auto
  qed
  have fresh_t: "\<forall>f\<in>set files_t. inode f \<noteq> 0 \<longrightarrow> \<not> strncmp0 (filename f) (d_name dq) (FILENAME_LEN c)"
    using sub fresh dq by (auto simp: zero_file_def)
  have scan: "lookup_scan c (d_name dq) (files_t[?k := ?e]) = Some ino"
    using lookup_scan_inserted [of files_t ?e "d_name dq" c] kk lenf ok fresh_t dq
    by (simp add: strncmp0_strncpy)
  have blk1: "blocks s1 = (blocks s_n)(?bno \<mapsto> Zeroed, dirbno \<mapsto> Dir (files_t[?k := ?e]))"
    unfolding s1 by (simp add: d_instantiate_def touch_dir_fields write_dir_def scrub_block_def)
  have ino1: "inodes s1 ino = Some i"
    unfolding s1 using ne i
    by (simp add: d_instantiate_def touch_dir_fields write_dir_def scrub_block_def)
  have dir1: "\<exists>d1. inodes s1 dir = Some d1 \<and> index_block d1 = dirbno"
    unfolding s1 using ne d ok
    by (simp add: d_instantiate_def touch_dir_fields write_dir_def scrub_block_def)
  have nr1: "nr_inodes s1 = nr_inodes s"
    unfolding s1 using ok
    by (simp add: d_instantiate_def touch_dir_fields write_dir_def scrub_block_def)
  have ig: "\<exists>s'. ouichefs_iget s1 ino = Inr s'"
    using ino1 nr1 ok by (simp add: ouichefs_iget_def)
  have dv: "dir_block c (Dir (files_t[?k := ?e])) = Inr (files_t[?k := ?e])"
    using lenf by (simp add: dir_block_def)
  have look: "\<exists>s2. ouichefs_lookup c h2 dir dq s1 = Inr (OK, dq\<lparr>d_inode := Some ino\<rparr>, s2)"
  proof -
    from dir1 obtain d1 where d1: "inodes s1 dir = Some d1" "index_block d1 = dirbno" by blast
    from ig obtain s' where s': "ouichefs_iget s1 ino = Inr s'" by blast
    have b: "blocks s1 dirbno = Some (Dir (files_t[?k := ?e]))" by (simp add: blk1)
    show ?thesis
      using len dq d1 b dv scan s' by (simp add: ouichefs_lookup_def bindf_def)
  qed
  have zero: "?bno \<noteq> dirbno \<longrightarrow> blocks s1 ?bno = Some Zeroed" by (simp add: blk1)
  from dentry' ino1 look zero show ?thesis by auto
qed

text \<open>
  Where a creation returns 0 (so the new entry went into a free slot of the directory
  block) in a directory whose inode is marked used and in which no used entry bears the
  name, a lookup of the name returns the inode the creation bound to the dentry; and the
  index block of the new inode, unless it is the block of the directory itself, is a
  block of zero bytes.
\<close>

lemma create_then_lookup:
  assumes cr: "ouichefs_create fuel c h dir dentry mode s = Some (Inr (OK, dentry', s1))"
    and d: "inodes s dir = Some d" and isdir: "S_ISDIR (i_mode d)" and used: "\<not> ifree_bitmap s dir"
    and db: "blocks s (index_block d) = Some db" and files: "dir_block c db = Inr files"
    and fresh: "\<forall>f\<in>set files. inode f \<noteq> 0 \<longrightarrow> \<not> strncmp0 (filename f) (d_name dentry) (FILENAME_LEN c)"
    and dq: "d_name dq = d_name dentry"
  shows "\<exists>ino i. d_inode dentry' = Some ino \<and> inodes s1 ino = Some i
      \<and> (\<exists>s2. ouichefs_lookup c h2 dir dq s1 = Inr (OK, dq\<lparr>d_inode := Some ino\<rparr>, s2))
      \<and> (index_block i \<noteq> index_block d \<longrightarrow> blocks s1 (index_block i) = Some Zeroed)"
proof -
  from cr have len: "strlen (d_name dentry) \<le> FILENAME_LEN c"
    by (auto simp: ouichefs_create_def split: if_splits)
  have k: "dir_kept c dir (index_block d) files s"
    using d used db files by (auto simp: dir_kept_def)
  have "\<exists>s_e. dir_kept c dir (index_block d) files s_e
          \<and> create_tail c h dir (index_block d) dentry mode s_e = Inr (OK, dentry', s1)"
  proof (cases "inode (files ! (MAX_SUBFILES c - 1)) \<noteq> 0")
    case False
    with cr len d db files have "create_tail c h dir (index_block d) dentry mode s = Inr (OK, dentry', s1)"
      by (auto simp: ouichefs_create_def split: if_splits)
    with k show ?thesis by blast
  next
    case True
    with cr len d db files obtain r s_e where
      fb: "ouichefs_fblocks fuel c h dir s = Some (Inr (r, s_e))"
      and ct: "create_tail c h dir (index_block d) dentry mode s_e = Inr (OK, dentry', s1)"
      by (auto simp: ouichefs_create_def split: if_splits option.splits sum.splits)
    from fblocks_kept [OF fb k d isdir] ct show ?thesis by blast
  qed
  then obtain s_e where ke: "dir_kept c dir (index_block d) files s_e"
    and ct: "create_tail c h dir (index_block d) dentry mode s_e = Inr (OK, dentry', s1)"
    by blast
  from create_tail_lookup [OF ct ke fresh len dq] show ?thesis .
qed

lemmas create_defs = ouichefs_create_def create_tail_def ouichefs_new_inode_def get_free_inode_def
  get_free_block_def ouichefs_iget_def inode_init_owner_def d_instantiate_def
  put_inode_def put_block_def iput_def

lemma get_first_free_bit_least:
  "k < n \<Longrightarrow> freemap k \<Longrightarrow> (\<forall>j<k. \<not> freemap j) \<Longrightarrow> get_first_free_bit freemap n = Some k"
  by (auto simp: get_first_free_bit_def find_Some_iff intro!: exI [of _ k])

lemma ex_first_free:
  "get_first_free_bit ((\<le>) 5) 8 = Some 5" "get_first_free_bit ((\<le>) 29) 32 = Some 29"
  by (rule get_first_free_bit_least; simp)+

lemma create_in_create_fs:
  "name = ''a'' \<or> name = ''c'' \<Longrightarrow>
   ouichefs_create 1 ex_params ex_host 1 \<lparr>d_name = name, d_inode = None\<rparr> 0x81A4 create_fs
     = Some (Inr (OK, \<lparr>d_name = name, d_inode = Some 5\<rparr>, created_fs name))"
  by (auto simp: create_defs ex_first_free create_fs_def created_fs_def free_inode_def ex_defs
      str_defs blk_defs)

lemma create_then_lookup_example:
  "(\<exists>s2. ouichefs_lookup ex_params ex_host 1 \<lparr>d_name = ''c'', d_inode = None\<rparr> (created_fs ''c'')
          = Inr (OK, \<lparr>d_name = ''c'', d_inode = Some 5\<rparr>, s2))
   \<and> blocks (created_fs ''c'') 29 = Some Zeroed"
proof -
  let ?files = "[\<lparr>inode = 3, filename = ''a''\<rparr>, zero_file]"
  let ?dentry = "\<lparr>d_name = ''c'', d_inode = None\<rparr>"
  have cr: "ouichefs_create 1 ex_params ex_host 1 ?dentry 0x81A4 create_fs
      = Some (Inr (OK, \<lparr>d_name = ''c'', d_inode = Some 5\<rparr>, created_fs ''c''))"
    by (rule create_in_create_fs) simp
  have d: "inodes create_fs 1 = Some (ex_dir_inode 10)" by (simp add: create_fs_def ex_defs)
  have isdir: "S_ISDIR (i_mode (ex_dir_inode 10))" by (simp add: S_ISDIR_def ex_defs)
  have used: "\<not> ifree_bitmap create_fs 1" by (simp add: create_fs_def ex_defs)
  have db: "blocks create_fs (index_block (ex_dir_inode 10)) = Some (Dir ?files)"
    by (simp add: create_fs_def ex_defs)
  have files: "dir_block ex_params (Dir ?files) = Inr ?files" by (simp add: dir_block_def ex_defs)
  have fresh: "\<forall>f\<in>set ?files. inode f \<noteq> 0 \<longrightarrow>
      \<not> strncmp0 (filename f) (d_name ?dentry) (FILENAME_LEN ex_params)"
    by (simp add: str_defs zero_file_def ex_defs)
  have dq: "d_name ?dentry = d_name ?dentry" by simp
  from create_then_lookup [OF cr d isdir used db files fresh dq, of ex_host]
  obtain ino i s2 where ino: "d_inode \<lparr>d_name = ''c'', d_inode = Some 5\<rparr> = Some ino"
    and i: "inodes (created_fs ''c'') ino = Some i"
    and look: "ouichefs_lookup ex_params ex_host 1 ?dentry (created_fs ''c'')
        = Inr (OK, ?dentry\<lparr>d_inode := Some ino\<rparr>, s2)"
    and zero: "index_block i \<noteq> index_block (ex_dir_inode 10) \<longrightarrow>
        blocks (created_fs ''c'') (index_block i) = Some Zeroed"
    by blast
  from ino have [simp]: "ino = 5" by simp
  from i have "index_block i = 29" by (auto simp: created_fs_def)
  with zero have "blocks (created_fs ''c'') 29 = Some Zeroed" by (simp add: ex_defs)
  with look show ?thesis by auto
qed

subsection \<open>The deletion route of the eviction pass\<close>



text \<open>The host's \<^verbatim>\<open>vfs_unlink\<close> on an alias of an inode ends in \<^verbatim>\<open>ouichefs_remove\<close> on that
  inode.\<close>

lemma vfs_unlink_alias:
  assumes "d_find_any_alias s ino = Some d"
  shows "vfs_unlink c h p d s
         = bindf (ouichefs_remove c h p ino s) (\<lambda>(ret, s').
             Inr (ret, if ret = OK then s'\<lparr>d_alias := (d_alias s')(ino := None)\<rparr> else s'))"
proof -
  from assms have "d_inode d = Some ino" by (auto simp: d_find_any_alias_def)
  then show ?thesis by (simp add: vfs_unlink_def ouichefs_unlink_def cong: if_cong)
qed



subsection \<open>Creation after an eviction elsewhere\<close>

lemma evict_first_free:
  "get_first_free_bit (((\<le>) 5)(4 := True)) 8 = Some 4"
  "get_first_free_bit (((\<le>) 29)(13 := True)) 32 = Some 13"
  by (rule get_first_free_bit_least; simp)+

lemmas remove_defs = ouichefs_remove_def remove_entry_def compact_files_def memmove_files_def
  memset_file_def remove_content_def clean_inode_def

text \<open>
  C7. The parent directory is full: a subdirectory \<open>d\<close> and a file that is in use. The
  only file that can be evicted lies in \<open>d\<close>. The eviction pass removes it and returns 0,
  the parent is as full as before, and \<^verbatim>\<open>ouichefs_create\<close> writes the new entry at index 2,
  the capacity of the directory: outside the entry array, where no lookup reads.
\<close>

theorem create_after_eviction_elsewhere_overruns:
  "blocks evict_sub_fs 10 = Some (Dir [\<lparr>inode = 2, filename = ''d''\<rparr>, \<lparr>inode = 3, filename = ''a''\<rparr>])
   \<and> map_option (map_sum id fst) (ouichefs_fblocks 2 ex_params ex_host 1 evict_sub_fs) = Some (Inr OK)
   \<and> ouichefs_create 2 ex_params ex_host 1 \<lparr>d_name = ''c'', d_inode = None\<rparr> 0x81A4 evict_sub_fs
       = Some (Inl (OutOfBounds 2))"
proof -
  have fuel: "ouichefs_iterate 2 c d a = ouichefs_iterate (Suc (Suc 0)) c d a"
    for c d and a :: "(nat \<Rightarrow> nat \<Rightarrow> fs \<Rightarrow> ouichefs_inode_kinship \<Rightarrow> fault + ouichefs_inode_kinship) option"
    by (simp add: numeral_2_eq_2)
  have walk: "ouichefs_iterate 2 ex_params 1 (Some ouichefs_fblocks_action) evict_sub_fs
                \<lparr>kin_parent = None, kin_inode = None\<rparr>
              = Some (Inr (evict_sub_fs\<lparr>i_count := (i_count evict_sub_fs)(2 := 1)\<rparr>,
                           \<lparr>kin_parent = Some 2, kin_inode = Some 4\<rparr>))"
    by (simp add: fuel evict_sub_fs_def free_inode_def ex_defs blk_defs walk_defs
        ouichefs_fblocks_strategy_mtime_def fun_upd_idem)
  let ?files = "[\<lparr>inode = 2, filename = ''d''\<rparr>, \<lparr>inode = 3, filename = ''a''\<rparr>]"
  let ?s1 = "evict_sub_fs\<lparr>i_count := (i_count evict_sub_fs)(2 := 1)\<rparr>"
  let ?dentry = "\<lparr>d_name = ''c'', d_inode = None\<rparr>"
  have d: "inodes evict_sub_fs 1 = Some ((ex_dir_inode 10)\<lparr>i_nlink := 3\<rparr>)"
    and b: "blocks evict_sub_fs 10 = Some (Dir ?files)"
    by (simp_all add: evict_sub_fs_def ex_defs)
  have fb: "ouichefs_fblocks 2 ex_params ex_host 1 evict_sub_fs
      = Some (fblocks_delete ex_params ex_host (Some 2) 4 (d_find_any_alias ?s1 4) ?s1)"
    unfolding ouichefs_fblocks_def walk by simp
  have "\<exists>s_e. fblocks_delete ex_params ex_host (Some 2) 4 (d_find_any_alias ?s1 4) ?s1 = Inr (OK, s_e)
      \<and> create_tail ex_params ex_host 1 10 ?dentry 0x81A4 s_e = Inl (OutOfBounds 2)"
    by (simp add: fblocks_delete_def d_find_any_alias_def remove_defs create_tail_def
        ouichefs_new_inode_def get_free_inode_def get_free_block_def evict_first_free
        ouichefs_iget_def inode_init_owner_def put_inode_def put_block_def evict_sub_fs_def
        free_inode_def ex_defs str_defs blk_defs)
  then obtain s_e where
    del: "fblocks_delete ex_params ex_host (Some 2) 4 (d_find_any_alias ?s1 4) ?s1 = Inr (OK, s_e)"
    and tail: "create_tail ex_params ex_host 1 10 ?dentry 0x81A4 s_e = Inl (OutOfBounds 2)"
    by blast
  have cr: "ouichefs_create 2 ex_params ex_host 1 ?dentry 0x81A4 evict_sub_fs = Some (Inl (OutOfBounds 2))"
  proof -
    have mx: "MAX_SUBFILES ex_params = 2" and fl: "FILENAME_LEN ex_params = 4"
      by (simp_all add: ex_params_def)
    show ?thesis
      unfolding ouichefs_create_def d fb del
      by (simp del: One_nat_def add: b tail str_defs dir_block_def mx fl ex_dir_inode_def)
  qed
  from b fb del cr show ?thesis by simp
qed

end
